theory Spec2Isabelle
  imports Complex_Main "HOL-Library.Sublist" "HOL-Library.AList"
begin

section \<open>Soma AI tutor: the request dispatcher and the progress tracker\<close>

text \<open>
  A shallow embedding of \<^verbatim>\<open>src/soma_ai_tutor/core.py\<close>. In the dispatcher and
  the tracker, Python strings are lists of 8-bit characters read as the code points
  U+0000 to U+00FF. \<open>normalize_topic\<close> is modelled a second time on lists of arbitrary
  code points, where \<open>str.lower\<close> depends on the context of a character; the two models
  agree on the code points below 256. A Python exception is a value of \<open>py_error\<close>,
  and a function that can raise returns a sum with the exception on the left.
\<close>

subsection \<open>Python values\<close>

datatype py_error =
    AttributeError string
  | TypeError string
  | IndexError string
  | ValueError string
  | OverflowError string
  | KeyError string

definition sq :: string where
  "sq = [CHR 0x27]"

text \<open>\<open>str(exc)\<close>: the message; a \<open>KeyError\<close> prints its key quoted.\<close>

fun str_exc :: "py_error \<Rightarrow> string" where
  "str_exc (AttributeError m) = m"
| "str_exc (TypeError m) = m"
| "str_exc (IndexError m) = m"
| "str_exc (ValueError m) = m"
| "str_exc (OverflowError m) = m"
| "str_exc (KeyError k) = sq @ k @ sq"

text \<open>A value that is a \<open>str\<close> or \<open>None\<close>.\<close>

type_synonym pystr = "string option"

subsection \<open>String methods\<close>

text \<open>\<open>str.isspace\<close> on one character, for code points below 256.\<close>

definition is_space :: "char \<Rightarrow> bool" where
  "is_space c = (of_char c \<in> {9, 10, 11, 12, 13, 28, 29, 30, 31, 32, 133, 160 :: nat})"

text \<open>
  \<open>str.lower\<close> on one character: A to Z, and the upper-case letters of Latin-1. On
  code points below 256 \<open>str.lower\<close> works one character at a time.
\<close>

definition lower_char :: "char \<Rightarrow> char" where
  "lower_char c =
     (let n = of_char c :: nat
      in if (65 \<le> n \<and> n \<le> 90) \<or> (192 \<le> n \<and> n \<le> 222 \<and> n \<noteq> 215)
         then char_of (n + 32) else c)"

definition lower :: "string \<Rightarrow> string" where
  "lower s = map lower_char s"

text \<open>\<open>s.strip()\<close>: whitespace removed at both ends.\<close>

definition strip :: "string \<Rightarrow> string" where
  "strip s = rev (dropWhile is_space (rev (dropWhile is_space s)))"

text \<open>\<open>s.split()\<close>: the maximal runs of non-whitespace characters, in order.\<close>

function split :: "string \<Rightarrow> string list" where
  "split s =
     (let t = dropWhile is_space s
      in if t = [] then []
         else takeWhile (\<lambda>c. \<not> is_space c) t # split (dropWhile (\<lambda>c. \<not> is_space c) t))"
  by pat_completeness auto
termination
proof (relation "measure length")
  show "wf (measure length)" by simp
next
  fix s t :: string
  assume t: "t = dropWhile is_space s" and ne: "t \<noteq> []"
  from ne obtain c cs where cs: "t = c # cs" by (cases t) auto
  with t ne have "\<not> is_space c" using hd_dropWhile [of is_space s] by (metis list.sel(1))
  then have "length (dropWhile (\<lambda>c. \<not> is_space c) t) \<le> length cs"
    using cs by (simp add: length_dropWhile_le)
  moreover have "length t \<le> length s" using t by (simp add: length_dropWhile_le)
  ultimately show "(dropWhile (\<lambda>c. \<not> is_space c) t, s) \<in> measure length"
    using cs by simp
qed

declare split.simps [simp del]

text \<open>\<open>sep.join(ws)\<close>.\<close>

fun join :: "string \<Rightarrow> string list \<Rightarrow> string" where
  "join sep [] = []"
| "join sep [w] = w"
| "join sep (w # v # ws) = w @ sep @ join sep (v # ws)"

text \<open>\<open>sub in s\<close> on strings, and \<open>s.startswith(p)\<close>.\<close>

fun is_in :: "string \<Rightarrow> string \<Rightarrow> bool" where
  "is_in sub [] = (sub = [])"
| "is_in sub (c # cs) = (prefix sub (c # cs) \<or> is_in sub cs)"

definition startswith :: "string \<Rightarrow> string \<Rightarrow> bool" where
  "startswith s p = prefix p s"

text \<open>\<open>str(n)\<close> for an integer, in decimal.\<close>

function str_nat :: "nat \<Rightarrow> string" where
  "str_nat n = (if n < 10 then [char_of (48 + n)] else str_nat (n div 10) @ [char_of (48 + n mod 10)])"
  by pat_completeness auto
termination
  by (relation "measure id") auto

declare str_nat.simps [simp del]

definition str_int :: "int \<Rightarrow> string" where
  "str_int i = (if i < 0 then ''-'' @ str_nat (nat (- i)) else str_nat (nat i))"

subsection \<open>Dictionaries\<close>

text \<open>
  A \<open>dict\<close> with string keys is the list of its items in insertion order, the keys
  distinct. Assigning to a key that is present replaces its value in place, and to a new
  key appends the item, which is what \<open>AList.update\<close> does.
\<close>

type_synonym 'v dict = "(string \<times> 'v) list"

definition dict_get :: "'v dict \<Rightarrow> string \<Rightarrow> 'v \<Rightarrow> 'v" where
  "dict_get d k dflt = (case map_of d k of None \<Rightarrow> dflt | Some v \<Rightarrow> v)"

definition dict_set :: "'v dict \<Rightarrow> string \<Rightarrow> 'v \<Rightarrow> 'v dict" where
  "dict_set d k v = AList.update k v d"

text \<open>\<open>d[k]\<close>, which raises \<open>KeyError\<close> on a missing key, and \<open>d[k] += 1\<close>.\<close>

definition dict_item :: "'v dict \<Rightarrow> string \<Rightarrow> py_error + 'v" where
  "dict_item d k = (case map_of d k of None \<Rightarrow> Inl (KeyError k) | Some v \<Rightarrow> Inr v)"

definition dict_incr :: "int dict \<Rightarrow> string \<Rightarrow> py_error + int dict" where
  "dict_incr d k = (case dict_item d k of Inl e \<Rightarrow> Inl e | Inr v \<Rightarrow> Inr (dict_set d k (v + 1)))"

subsection \<open>\<open>normalize_topic\<close>\<close>

definition normalize_topic :: "string \<Rightarrow> string" where
  "normalize_topic topic = lower (join '' '' (split (strip topic)))"

subsection \<open>\<open>normalize_topic\<close> on strings of any code points\<close>

text \<open>
  The same function on a string given as the list of its code points, with the
  interpreter's character tables as a parameter: which code points are whitespace, the
  lower-case mapping of a code point (one or more code points), and which code points are
  cased and which case-ignorable. \<open>str.lower\<close> maps every code point by the table but
  the Greek capital sigma, which becomes the final small sigma when a cased letter stands
  before it and none after it, case-ignorable code points skipped, and the small sigma
  otherwise.
\<close>

type_synonym ustr = "nat list"

record ucd =
  u_space :: "nat \<Rightarrow> bool"
  u_lower :: "nat \<Rightarrow> nat list"
  u_cased :: "nat \<Rightarrow> bool"
  u_ignorable :: "nat \<Rightarrow> bool"

definition capital_sigma :: nat where "capital_sigma = 0x3A3"
definition small_sigma :: nat where "small_sigma = 0x3C3"
definition final_small_sigma :: nat where "final_small_sigma = 0x3C2"

text \<open>
  \<open>seen\<close> holds the code points before the sigma, the nearest first, and \<open>ahead\<close>
  those after it.
\<close>

definition final_sigma :: "ucd \<Rightarrow> ustr \<Rightarrow> ustr \<Rightarrow> bool" where
  "final_sigma db seen ahead =
     ((case dropWhile (u_ignorable db) seen of [] \<Rightarrow> False | c # _ \<Rightarrow> u_cased db c)
      \<and> (case dropWhile (u_ignorable db) ahead of [] \<Rightarrow> True | c # _ \<Rightarrow> \<not> u_cased db c))"

fun lower_from :: "ucd \<Rightarrow> ustr \<Rightarrow> ustr \<Rightarrow> ustr" where
  "lower_from db seen [] = []"
| "lower_from db seen (c # rest) =
     (if c = capital_sigma
      then [if final_sigma db seen rest then final_small_sigma else small_sigma]
      else u_lower db c) @ lower_from db (c # seen) rest"

definition lower_u :: "ucd \<Rightarrow> ustr \<Rightarrow> ustr" where
  "lower_u db s = lower_from db [] s"

definition strip_u :: "ucd \<Rightarrow> ustr \<Rightarrow> ustr" where
  "strip_u db s = rev (dropWhile (u_space db) (rev (dropWhile (u_space db) s)))"

function split_u :: "ucd \<Rightarrow> ustr \<Rightarrow> ustr list" where
  "split_u db s =
     (let t = dropWhile (u_space db) s
      in if t = [] then []
         else takeWhile (\<lambda>c. \<not> u_space db c) t # split_u db (dropWhile (\<lambda>c. \<not> u_space db c) t))"
  by pat_completeness auto
termination
proof (relation "measure (\<lambda>(db, s). length s)")
  show "wf (measure (\<lambda>(db, s). length s))" by simp
next
  fix db :: ucd and s t :: ustr
  assume t: "t = dropWhile (u_space db) s" and ne: "t \<noteq> []"
  from ne obtain c cs where cs: "t = c # cs" by (cases t) auto
  with t ne have "\<not> u_space db c" using hd_dropWhile [of "u_space db" s] by (metis list.sel(1))
  then have "length (dropWhile (\<lambda>c. \<not> u_space db c) t) \<le> length cs"
    using cs by (simp add: length_dropWhile_le)
  moreover have "length t \<le> length s" using t by (simp add: length_dropWhile_le)
  ultimately show "((db, dropWhile (\<lambda>c. \<not> u_space db c) t), (db, s)) \<in> measure (\<lambda>(db, s). length s)"
    using cs by simp
qed

declare split_u.simps [simp del]

fun join_u :: "ustr \<Rightarrow> ustr list \<Rightarrow> ustr" where
  "join_u sep [] = []"
| "join_u sep [w] = w"
| "join_u sep (w # v # ws) = w @ sep @ join_u sep (v # ws)"

definition normalize_topic_u :: "ucd \<Rightarrow> ustr \<Rightarrow> ustr" where
  "normalize_topic_u db topic = lower_u db (join_u [0x20] (split_u db (strip_u db topic)))"

subsection \<open>The persisted progress store\<close>

text \<open>
  What \<open>json.loads\<close> returns. A float is its exact rational value or one of the three
  non-finite values, so that \<open>int\<close> of it is exact.
\<close>

datatype pyfloat = Finite rat | PosInf | NegInf | NaN

datatype json =
    JNull
  | JBool bool
  | JInt int
  | JFloat pyfloat
  | JStr string
  | JArr "json list"
  | JObj "(string \<times> json) list"

text \<open>
  \<open>int(value)\<close>. On a string: optional whitespace around an optional sign and decimal
  digits, single underscores allowed between digits. The whitespace that \<open>int\<close> skips
  is not that of \<open>str.strip\<close>: the separators U+001C to U+001F are not skipped. The
  digit-count limit of recent interpreters is not modelled.
\<close>

definition is_int_space :: "char \<Rightarrow> bool" where
  "is_int_space c = (of_char c \<in> {9, 10, 11, 12, 13, 32, 133, 160 :: nat})"

definition is_digit :: "char \<Rightarrow> bool" where
  "is_digit c = (48 \<le> (of_char c :: nat) \<and> (of_char c :: nat) \<le> 57)"

fun digits_value :: "nat \<Rightarrow> string \<Rightarrow> nat option" where
  "digits_value acc [] = Some acc"
| "digits_value acc (c # cs) =
     (if is_digit c then digits_value (10 * acc + (of_char c - 48)) cs
      else if c = CHR ''_'' \<and> (case cs of [] \<Rightarrow> False | d # _ \<Rightarrow> is_digit d)
           then digits_value acc cs
      else None)"

definition parse_digits :: "string \<Rightarrow> nat option" where
  "parse_digits s = (case s of [] \<Rightarrow> None | c # _ \<Rightarrow> if is_digit c then digits_value 0 s else None)"

definition int_of_str :: "string \<Rightarrow> py_error + int" where
  "int_of_str s =
     (let t = rev (dropWhile is_int_space (rev (dropWhile is_int_space s)));
          r = (case t of
                 [] \<Rightarrow> None
               | c # cs \<Rightarrow>
                   if c = CHR ''-'' then map_option (\<lambda>n. - int n) (parse_digits cs)
                   else if c = CHR ''+'' then map_option int (parse_digits cs)
                   else map_option int (parse_digits t))
      in case r of
           None \<Rightarrow> Inl (ValueError ''invalid literal for int() with base 10'')
         | Some i \<Rightarrow> Inr i)"

fun int_of_float :: "pyfloat \<Rightarrow> py_error + int" where
  "int_of_float (Finite q) = Inr (if 0 \<le> q then \<lfloor>q\<rfloor> else \<lceil>q\<rceil>)"
| "int_of_float PosInf = Inl (OverflowError ''cannot convert float infinity to integer'')"
| "int_of_float NegInf = Inl (OverflowError ''cannot convert float infinity to integer'')"
| "int_of_float NaN = Inl (ValueError ''cannot convert float NaN to integer'')"

fun py_int :: "json \<Rightarrow> py_error + int" where
  "py_int (JInt n) = Inr n"
| "py_int (JBool b) = Inr (if b then 1 else 0)"
| "py_int (JFloat f) = int_of_float f"
| "py_int (JStr s) = int_of_str s"
| "py_int JNull = Inl (TypeError ''int() argument must be a string, a bytes-like object or a real number'')"
| "py_int (JArr xs) = Inl (TypeError ''int() argument must be a string, a bytes-like object or a real number'')"
| "py_int (JObj kvs) = Inl (TypeError ''int() argument must be a string, a bytes-like object or a real number'')"

text \<open>
  The state the program works on: what reading and parsing the progress file gives (the
  exception when either fails), the notes directory as a map from file names to file
  contents, the clock as the timestamp \<open>strftime\<close> prints, and a log of the accesses to
  the two stores. Writing a file is assumed to succeed.
\<close>

type_synonym payload = "py_error + json"

datatype io_event = ReadProgress | WriteProgress | WriteNote string

record world =
  progress_file :: payload
  note_files :: "string \<rightharpoonup> string"
  clock :: string
  io_log :: "io_event list"

text \<open>The loop of \<open>load_progress\<close> over \<open>raw.items()\<close>.\<close>

fun load_loop :: "int dict \<Rightarrow> (string \<times> json) list \<Rightarrow> int dict" where
  "load_loop cleaned [] = cleaned"
| "load_loop cleaned ((key, val) # rest) =
     (let topic_key = normalize_topic key
      in if topic_key = [] then load_loop cleaned rest
         else (case py_int val of
                 Inr n \<Rightarrow> load_loop (dict_set cleaned topic_key (dict_get cleaned topic_key 0 + n)) rest
               | Inl e \<Rightarrow> load_loop cleaned rest))"

fun type_name :: "json \<Rightarrow> string" where
  "type_name JNull = ''NoneType''"
| "type_name (JBool b) = ''bool''"
| "type_name (JInt n) = ''int''"
| "type_name (JFloat f) = ''float''"
| "type_name (JStr s) = ''str''"
| "type_name (JArr xs) = ''list''"
| "type_name (JObj kvs) = ''dict''"

text \<open>
  \<open>load_progress\<close> on the file's payload: the \<open>try\<close> replaces a failed read by the empty
  dictionary; \<open>raw.items()\<close> stands outside the \<open>try\<close> and raises on a value that is no
  dictionary.
\<close>

definition read_progress :: "payload \<Rightarrow> py_error + int dict" where
  "read_progress p =
     (let raw = (case p of Inl e \<Rightarrow> JObj [] | Inr v \<Rightarrow> v)
      in case raw of
           JObj kvs \<Rightarrow> Inr (load_loop [] kvs)
         | _ \<Rightarrow> Inl (AttributeError (sq @ type_name raw @ sq @ '' object has no attribute ''
                                      @ sq @ ''items'' @ sq)))"

definition load_progress :: "world \<Rightarrow> (py_error + int dict) \<times> world" where
  "load_progress w = (read_progress (progress_file w), w\<lparr>io_log := io_log w @ [ReadProgress]\<rparr>)"

text \<open>\<open>save_progress\<close>: the file then parses to the dictionary written.\<close>

definition dump :: "int dict \<Rightarrow> json" where
  "dump data = JObj (map (\<lambda>(k, v). (k, JInt v)) data)"

definition save_progress :: "int dict \<Rightarrow> world \<Rightarrow> world" where
  "save_progress data w = w\<lparr>progress_file := Inr (dump data), io_log := io_log w @ [WriteProgress]\<rparr>"

text \<open>
  \<open>is_api_error_text\<close>: on a value that is \<open>None\<close> the lookup of
  \<open>text.startswith\<close> raises.
\<close>

definition none_has_no_startswith :: string where
  "none_has_no_startswith =
     sq @ ''NoneType'' @ sq @ '' object has no attribute '' @ sq @ ''startswith'' @ sq"

definition is_api_error_text :: "pystr \<Rightarrow> py_error + bool" where
  "is_api_error_text text =
     (case text of
        None \<Rightarrow> Inl (AttributeError none_has_no_startswith)
      | Some s \<Rightarrow> Inr (startswith s ''Gemini API Error:''))"

subsection \<open>Responses of the generation service\<close>

text \<open>
  An attribute of an object is missing, \<open>None\<close>, or has a value. A response is seen
  through what \<open>_extract_text\<close> reads of it: \<open>text\<close>, the path
  \<open>candidates[0].content.parts[0].text\<close>, and \<open>str(response)\<close>.
\<close>

datatype 'a attr = Absent | Null | Val 'a

datatype part = Part (part_text: "string attr")

datatype content = Content (parts: "part list attr")

datatype candidate = Candidate (content: "content attr")

datatype response =
  Response (resp_text: "string attr") (candidates: "candidate list attr") (resp_str: string)

definition no_attribute :: "string \<Rightarrow> py_error" where
  "no_attribute name = AttributeError (''object has no attribute '' @ sq @ name @ sq)"

definition not_subscriptable :: py_error where
  "not_subscriptable = TypeError (sq @ ''NoneType'' @ sq @ '' object is not subscriptable'')"

definition index_out_of_range :: py_error where
  "index_out_of_range = IndexError ''list index out of range''"

text \<open>\<open>response.candidates[0].content.parts[0].text\<close>, every step of which can raise.\<close>

definition deep_text :: "response \<Rightarrow> py_error + pystr" where
  "deep_text r =
     (case candidates r of
        Absent \<Rightarrow> Inl (no_attribute ''candidates'')
      | Null \<Rightarrow> Inl not_subscriptable
      | Val [] \<Rightarrow> Inl index_out_of_range
      | Val (c # _) \<Rightarrow>
          (case content c of
             Absent \<Rightarrow> Inl (no_attribute ''content'')
           | Null \<Rightarrow> Inl (no_attribute ''parts'')
           | Val ct \<Rightarrow>
               (case parts ct of
                  Absent \<Rightarrow> Inl (no_attribute ''parts'')
                | Null \<Rightarrow> Inl not_subscriptable
                | Val [] \<Rightarrow> Inl index_out_of_range
                | Val (p # _) \<Rightarrow>
                    (case part_text p of
                       Absent \<Rightarrow> Inl (no_attribute ''text'')
                     | Null \<Rightarrow> Inr None
                     | Val s \<Rightarrow> Inr (Some s)))))"

text \<open>\<open>hasattr(response, "text") and response.text\<close>: present, not \<open>None\<close>, not empty.\<close>

definition populated :: "string attr \<Rightarrow> bool" where
  "populated a = (case a of Val s \<Rightarrow> s \<noteq> [] | _ \<Rightarrow> False)"

definition attr_value :: "string attr \<Rightarrow> pystr" where
  "attr_value a = (case a of Val s \<Rightarrow> Some s | _ \<Rightarrow> None)"

definition extract_text :: "response \<Rightarrow> py_error + pystr" where
  "extract_text r =
     (if populated (resp_text r) then Inr (attr_value (resp_text r))
      else (case deep_text r of
              Inr v \<Rightarrow> Inr v
            | Inl e \<Rightarrow> Inr (Some (resp_str r))))"

subsection \<open>Error classification\<close>

definition is_not_found :: "string \<Rightarrow> bool" where
  "is_not_found err =
     (let l = lower err
      in is_in ''404'' l \<and> (is_in ''not_found'' l \<or> is_in ''not found'' l))"

definition classify_error :: "string \<Rightarrow> string" where
  "classify_error err =
     (let l = lower err
      in if is_not_found err then ''NOT_FOUND''
         else if is_in ''429'' l \<or> is_in ''resource_exhausted'' l then ''QUOTA_EXHAUSTED''
         else if is_in ''401'' l \<or> is_in ''unauthenticated'' l \<or> is_in ''invalid api key'' l
              then ''AUTH''
         else if is_in ''403'' l \<or> is_in ''permission_denied'' l then ''PERMISSION''
         else if is_in ''deadline_exceeded'' l \<or> is_in ''timed out'' l \<or> is_in ''timeout'' l
              then ''TIMEOUT''
         else ''ERROR'')"

subsection \<open>The dispatcher: \<open>generate\<close>\<close>

text \<open>
  The external call \<open>client.models.generate_content(model, contents)\<close> returns a response
  or raises an exception, of which the program reads \<open>str(exc)\<close> only.
\<close>

datatype contents = Prompt string | Attachment string string string

datatype outcome = Returns response | Raises string

type_synonym client = "string \<Rightarrow> contents \<Rightarrow> outcome"

text \<open>
  The loop of \<open>generate\<close> over the remaining candidates. It returns the result with the
  models it called, in order. The \<open>except\<close> clause is \<open>on_error\<close> below, inlined.
\<close>

fun generate_loop :: "client \<Rightarrow> contents \<Rightarrow> string \<Rightarrow> string list \<Rightarrow> pystr \<times> string list" where
  "generate_loop cl cts last_error [] =
     (Some (''Gemini API Error: all candidate models failed. Last error: '' @ last_error), [])"
| "generate_loop cl cts last_error (model_name # rest) =
     (let attempt = (case cl model_name cts of
                       Returns response \<Rightarrow>
                         (case extract_text response of
                            Inr v \<Rightarrow> Inr v
                          | Inl e \<Rightarrow> Inl (str_exc e))
                     | Raises error_text \<Rightarrow> Inl error_text)
      in case attempt of
           Inr v \<Rightarrow> (v, [model_name])
         | Inl error_text \<Rightarrow>
             if is_not_found error_text
             then (let (res, calls) = generate_loop cl cts (model_name @ '': '' @ error_text) rest
                   in (res, model_name # calls))
             else (Some (''Gemini API Error: '' @ error_text), [model_name]))"

definition generate :: "client \<Rightarrow> string list \<Rightarrow> contents \<Rightarrow> pystr \<times> string list" where
  "generate cl model_candidates cts = generate_loop cl cts [] model_candidates"

subsection \<open>The dispatcher: \<open>check_access\<close>\<close>

definition statuses0 :: "int dict" where
  "statuses0 =
     [(''OK'', 0), (''NOT_FOUND'', 0), (''QUOTA_EXHAUSTED'', 0), (''AUTH'', 0),
      (''PERMISSION'', 0), (''TIMEOUT'', 0), (''ERROR'', 0)]"

definition probe_prompt :: contents where
  "probe_prompt = Prompt ''Reply with exactly: OK''"

text \<open>The \<open>except\<close> clause of the loop body of \<open>check_access\<close>.\<close>

definition check_failed ::
  "int dict \<Rightarrow> string list \<Rightarrow> string \<Rightarrow> string \<Rightarrow> py_error + int dict \<times> string list" where
  "check_failed statuses lines model_name error_text =
     (let bucket = classify_error error_text
      in case dict_incr statuses bucket of
           Inl e \<Rightarrow> Inl e
         | Inr st \<Rightarrow>
             Inr (st, lines @ [''['' @ bucket @ ''] '' @ model_name @ '' -> '' @ take 180 error_text]))"

text \<open>
  One round of the loop. \<open>.strip()\<close> on a result that is \<open>None\<close> raises inside the
  \<open>try\<close>, with the message below, as a failed \<open>statuses["OK"] += 1\<close> would.
\<close>

definition none_has_no_strip :: string where
  "none_has_no_strip = sq @ ''NoneType'' @ sq @ '' object has no attribute '' @ sq @ ''strip'' @ sq"

definition check_one ::
  "client \<Rightarrow> int dict \<Rightarrow> string list \<Rightarrow> string \<Rightarrow> py_error + int dict \<times> string list" where
  "check_one cl statuses lines model_name =
     (case cl model_name probe_prompt of
        Raises error_text \<Rightarrow> check_failed statuses lines model_name error_text
      | Returns response \<Rightarrow>
          (case extract_text response of
             Inl e \<Rightarrow> check_failed statuses lines model_name (str_exc e)
           | Inr None \<Rightarrow> check_failed statuses lines model_name none_has_no_strip
           | Inr (Some t) \<Rightarrow>
               (let text = strip t
                in case dict_incr statuses ''OK'' of
                     Inl e \<Rightarrow> check_failed statuses lines model_name (str_exc e)
                   | Inr st \<Rightarrow>
                       Inr (st, lines @ [''[OK] '' @ model_name @ '' -> '' @ take 120 text]))))"

fun check_loop ::
  "client \<Rightarrow> int dict \<Rightarrow> string list \<Rightarrow> string list \<Rightarrow> py_error + int dict \<times> string list" where
  "check_loop cl statuses lines [] = Inr (statuses, lines)"
| "check_loop cl statuses lines (model_name # rest) =
     (case check_one cl statuses lines model_name of
        Inl e \<Rightarrow> Inl e
      | Inr (st, ls) \<Rightarrow> check_loop cl st ls rest)"

definition summary :: "int dict \<Rightarrow> string" where
  "summary statuses =
     ''Summary: '' @ join '', '' (map (\<lambda>(k, v). k @ ''='' @ str_int v) (filter (\<lambda>(k, v). v > 0) statuses))"

text \<open>The closing \<open>if\<close> chain; each \<open>statuses[...]\<close> is a lookup that can raise.\<close>

definition verdict :: "int dict \<Rightarrow> nat \<Rightarrow> py_error + string" where
  "verdict statuses n_models =
     (case dict_item statuses ''OK'' of Inl e \<Rightarrow> Inl e | Inr ok \<Rightarrow>
      if ok > 0 then Inr ''Result: Gemini is reachable. At least one configured model works.'' else
      case dict_item statuses ''AUTH'' of Inl e \<Rightarrow> Inl e | Inr auth \<Rightarrow>
      if auth > 0 then Inr ''Blocked by authentication. Check GOOGLE_API_KEY.'' else
      case dict_item statuses ''PERMISSION'' of Inl e \<Rightarrow> Inl e | Inr perm \<Rightarrow>
      if perm > 0 then Inr ''Blocked by project/API permissions for this key.'' else
      case dict_item statuses ''QUOTA_EXHAUSTED'' of Inl e \<Rightarrow> Inl e | Inr quota \<Rightarrow>
      if quota > 0 then Inr ''Blocked by quota/billing limits on this project.'' else
      case dict_item statuses ''NOT_FOUND'' of Inl e \<Rightarrow> Inl e | Inr nf \<Rightarrow>
      if nf = int n_models
      then Inr ''Blocked by model names. None of the configured models are available.''
      else Inr ''Blocked by API/network/runtime errors. See per-model details above.'')"

definition check_access_lines :: "client \<Rightarrow> string list \<Rightarrow> py_error + string list" where
  "check_access_lines cl model_candidates =
     (case check_loop cl statuses0 [''Gemini access check'', replicate 40 CHR ''-''] model_candidates of
        Inl e \<Rightarrow> Inl e
      | Inr (statuses, lines) \<Rightarrow>
          (case verdict statuses (length model_candidates) of
             Inl e \<Rightarrow> Inl e
           | Inr v \<Rightarrow> Inr (lines @ [replicate 40 CHR ''-'', summary statuses, v])))"

definition check_access :: "client \<Rightarrow> string list \<Rightarrow> py_error + string" where
  "check_access cl model_candidates =
     (case check_access_lines cl model_candidates of
        Inl e \<Rightarrow> Inl e
      | Inr lines \<Rightarrow> Inr (join [CHR 0x0A] lines))"

subsection \<open>The progress tracker and the orchestration\<close>

definition get_difficulty :: "world \<Rightarrow> string \<Rightarrow> (py_error + string) \<times> world" where
  "get_difficulty w topic =
     (case load_progress w of
        (Inl e, w1) \<Rightarrow> (Inl e, w1)
      | (Inr data, w1) \<Rightarrow>
          (let score = dict_get data (normalize_topic topic) 0
           in (Inr (if score > 5 then ''easy'' else if score > 2 then ''medium'' else ''hard''), w1)))"

definition update_progress :: "world \<Rightarrow> string \<Rightarrow> (py_error + unit) \<times> world" where
  "update_progress w topic =
     (let topic_key = normalize_topic topic
      in if topic_key = [] then (Inr (), w)
         else (case load_progress w of
                 (Inl e, w1) \<Rightarrow> (Inl e, w1)
               | (Inr data, w1) \<Rightarrow>
                   (Inr (), save_progress (dict_set data topic_key (dict_get data topic_key 0 + 1)) w1)))"

text \<open>
  \<open>save_note\<close>: the file is named by the clock; an existing file is overwritten.
  \<open>write_text\<close> refuses a value that is no string before it opens the file.
\<close>

definition save_note :: "world \<Rightarrow> pystr \<Rightarrow> (py_error + string) \<times> world" where
  "save_note w text =
     (let filename = clock w @ ''.txt''
      in case text of
           None \<Rightarrow> (Inl (TypeError ''data must be str, not NoneType''), w)
         | Some s \<Rightarrow>
             (Inr filename,
              w\<lparr>note_files := (note_files w)(filename \<mapsto> s), io_log := io_log w @ [WriteNote filename]\<rparr>))"

text \<open>
  \<open>run_and_track\<close>: \<open>fn\<close> is any operation on the state that returns a string or
  \<open>None\<close>, as \<open>generate\<close> does, or raises.
\<close>

definition run_and_track ::
  "world \<Rightarrow> string \<Rightarrow> (world \<Rightarrow> (py_error + pystr) \<times> world) \<Rightarrow>
   (py_error + pystr \<times> string option) \<times> world" where
  "run_and_track w topic fn =
     (case fn w of
        (Inl e, w1) \<Rightarrow> (Inl e, w1)
      | (Inr result, w1) \<Rightarrow>
          (case is_api_error_text result of
             Inl e \<Rightarrow> (Inl e, w1)
           | Inr failed \<Rightarrow>
               if failed then (Inr (result, None), w1)
               else (case update_progress w1 topic of
                       (Inl e, w2) \<Rightarrow> (Inl e, w2)
                     | (Inr u, w2) \<Rightarrow>
                         (case save_note w2 result of
                            (Inl e, w3) \<Rightarrow> (Inl e, w3)
                          | (Inr note, w3) \<Rightarrow> (Inr (result, Some note), w3)))))"

subsection \<open>Topics that differ only in letter case and whitespace\<close>


text \<open>
  What the properties need of a character table: the blank is whitespace, a whitespace
  code point is its own lower case, and the lower case of any other code point holds no
  whitespace.
\<close>

definition ucd_ok :: "ucd \<Rightarrow> bool" where
  "ucd_ok db =
     (u_space db 0x20
      \<and> (\<forall>c. u_space db c \<longrightarrow> u_lower db c = [c])
      \<and> (\<forall>c. \<not> u_space db c \<longrightarrow> list_all (\<lambda>d. \<not> u_space db d) (u_lower db c)))"

text \<open>
  A table for the examples. It agrees with the interpreter's on the code points below
  256 and on the Greek letters capital and small delta, omicron and sigma and the final
  small sigma; it says nothing true of other code points. \<open>code_points\<close> reads a
  string of the 8-bit model as code points.
\<close>

definition ucd0 :: ucd where
  "ucd0 =
     \<lparr>u_space = (\<lambda>n. n \<in> {9, 10, 11, 12, 13, 28, 29, 30, 31, 32, 133, 160}),
      u_lower = (\<lambda>n. if (65 \<le> n \<and> n \<le> 90) \<or> (192 \<le> n \<and> n \<le> 222 \<and> n \<noteq> 215)
                          \<or> n = 0x394 \<or> n = 0x39F \<or> n = 0x3A3
                       then [n + 32] else [n]),
      u_cased = (\<lambda>n. (65 \<le> n \<and> n \<le> 90) \<or> (97 \<le> n \<and> n \<le> 122) \<or> n = 170 \<or> n = 181 \<or> n = 186
                       \<or> (192 \<le> n \<and> n \<le> 255 \<and> n \<noteq> 215 \<and> n \<noteq> 247)
                       \<or> n \<in> {0x394, 0x39F, 0x3A3, 0x3B4, 0x3BF, 0x3C2, 0x3C3}),
      u_ignorable = (\<lambda>n. n \<in> {39, 46, 58, 94, 96, 168, 173, 175, 180, 183, 184})\<rparr>"

definition code_points :: "string \<Rightarrow> ustr" where
  "code_points s = map of_char s"

text \<open>Lowering one code point at a time, and auxiliary notions of the proofs.\<close>

definition lower_each :: "ucd \<Rightarrow> ustr \<Rightarrow> ustr" where
  "lower_each db s = concat (map (u_lower db) s)"

definition starts_word_u :: "ucd \<Rightarrow> ustr \<Rightarrow> bool" where
  "starts_word_u db s = (case s of [] \<Rightarrow> False | c # _ \<Rightarrow> \<not> u_space db c)"

definition agree_u :: "ucd \<Rightarrow> ustr \<Rightarrow> ustr \<Rightarrow> bool" where
  "agree_u db s t =
     (starts_word_u db s = starts_word_u db t
      \<and> map (lower_each db) (split_u db s) = map (lower_each db) (split_u db t))"

text \<open>Auxiliary notions of the proofs about \<open>split\<close>.\<close>

definition starts_word :: "string \<Rightarrow> bool" where
  "starts_word s = (case s of [] \<Rightarrow> False | c # _ \<Rightarrow> \<not> is_space c)"

definition agree :: "string \<Rightarrow> string \<Rightarrow> bool" where
  "agree s t = (starts_word s = starts_word t \<and> map lower (split s) = map lower (split t))"

subsection \<open>Notions used to state the properties of the progress tracker\<close>

text \<open>A key in normalized form, and a dictionary whose keys are distinct and normalized.\<close>

definition good_key :: "string \<Rightarrow> bool" where
  "good_key k = (k \<noteq> [] \<and> normalize_topic k = k)"

definition good_dict :: "int dict \<Rightarrow> bool" where
  "good_dict d = (distinct (map fst d) \<and> list_all good_key (map fst d))"

text \<open>
  The integers that the entries of a parsed object contribute to a key: the values that
  \<open>int\<close> accepts, of the entries whose key normalizes to it.
\<close>

fun contributions :: "(string \<times> json) list \<Rightarrow> string \<Rightarrow> int list" where
  "contributions [] k = []"
| "contributions ((key, val) # rest) k =
     (if normalize_topic key = k
      then (case py_int val of Inr n \<Rightarrow> n # contributions rest k | Inl e \<Rightarrow> contributions rest k)
      else contributions rest k)"

text \<open>\<open>update_progress\<close> called on each topic of a list in turn.\<close>

fun update_all :: "world \<Rightarrow> string list \<Rightarrow> (py_error + unit) \<times> world" where
  "update_all w [] = (Inr (), w)"
| "update_all w (t # ts) =
     (case update_progress w t of
        (Inl e, w1) \<Rightarrow> (Inl e, w1)
      | (Inr u, w1) \<Rightarrow> update_all w1 ts)"

text \<open>
  A store for the examples: the second entry has a blank key and the fourth a value that
  is no number; the first and the third normalize to the same key.
\<close>

definition world0 :: world where
  "world0 = \<lparr>progress_file = Inr (JObj [(''Linear  Algebra'', JInt 2), (''  '', JInt 7),
                                        (''linear algebra '', JStr ''3''), (''Sets'', JNull), (''logic'', JInt 6),
                                        (''graphs'', JInt 3), (''Proofs'', JFloat (Finite (5 / 2)))]),
             note_files = Map.empty, clock = ''20240101_120000'', io_log = []\<rparr>"

text \<open>
  The same store with a note already saved under the clock's timestamp, and an operation
  that returns a given value and leaves the state alone.
\<close>

definition world1 :: world where
  "world1 = world0\<lparr>note_files := [''20240101_120000.txt'' \<mapsto> ''an older note'']\<rparr>"

definition answers :: "pystr \<Rightarrow> world \<Rightarrow> (py_error + pystr) \<times> world" where
  "answers result w = (Inr result, w)"

subsection \<open>Notions used to state the properties of the dispatcher\<close>

text \<open>
  The first content part of the first candidate, when the path to it exists, and four
  responses for the examples.
\<close>

definition first_part :: "response \<Rightarrow> part option" where
  "first_part r =
     (case candidates r of
        Val (c # _) \<Rightarrow>
          (case content c of
             Val ct \<Rightarrow> (case parts ct of Val (p # _) \<Rightarrow> Some p | _ \<Rightarrow> None)
           | _ \<Rightarrow> None)
      | _ \<Rightarrow> None)"

definition response1 :: response where
  "response1 = Response (Val ''direct'') (Val [Candidate (Val (Content (Val [Part (Val ''deep'')])))]) ''<response>''"

definition response2 :: response where
  "response2 = Response (Val []) (Val [Candidate (Val (Content (Val [Part (Val ''deep''), Part Null])))]) ''<response>''"

definition response3 :: response where
  "response3 = Response Null (Val []) ''<response>''"

definition response4 :: response where
  "response4 = Response Absent (Val [Candidate (Val (Content (Val [Part Null])))]) ''<response>''"

text \<open>A pattern occurs in the lower-cased error text.\<close>

definition has :: "string \<Rightarrow> string \<Rightarrow> bool" where
  "has err pat = is_in pat (lower err)"

text \<open>
  The call for a model raises an error that \<open>_is_not_found\<close> accepts; the error text
  of a model's call; and a client for the examples.
\<close>

definition fails_not_found :: "client \<Rightarrow> contents \<Rightarrow> string \<Rightarrow> bool" where
  "fails_not_found cl cts m = (case cl m cts of Raises e \<Rightarrow> is_not_found e | Returns r \<Rightarrow> False)"

definition error_of :: "client \<Rightarrow> contents \<Rightarrow> string \<Rightarrow> string" where
  "error_of cl cts m = (case cl m cts of Raises e \<Rightarrow> e | Returns r \<Rightarrow> [])"

definition client1 :: client where
  "client1 m cts =
     (if m = ''model-a'' then Raises ''404 NOT_FOUND: models/model-a is not found''
      else if m = ''model-b'' then Returns response1
      else if m = ''model-c'' then Raises ''504 DEADLINE_EXCEEDED''
      else if m = ''model-e'' then Raises ''401 Unauthenticated''
      else if m = ''model-f'' then Raises ''403 PERMISSION_DENIED''
      else if m = ''model-g'' then Raises ''429 RESOURCE_EXHAUSTED''
      else if m = ''model-h'' then Returns response4
      else Raises ''Error 404: model not found'')"

text \<open>
  What one round of the loop of \<open>check_access\<close> adds for a model: the tag it counts
  and the line it appends. \<open>tally\<close> counts the models of a list with a given tag.
\<close>

definition probe_tag :: "client \<Rightarrow> string \<Rightarrow> string" where
  "probe_tag cl m =
     (case cl m probe_prompt of
        Raises e \<Rightarrow> classify_error e
      | Returns r \<Rightarrow>
          (case extract_text r of
             Inr (Some t) \<Rightarrow> ''OK''
           | Inr None \<Rightarrow> classify_error none_has_no_strip
           | Inl e \<Rightarrow> classify_error (str_exc e)))"

definition probe_line :: "client \<Rightarrow> string \<Rightarrow> string" where
  "probe_line cl m =
     (case cl m probe_prompt of
        Raises e \<Rightarrow> ''['' @ classify_error e @ ''] '' @ m @ '' -> '' @ take 180 e
      | Returns r \<Rightarrow>
          (case extract_text r of
             Inr (Some t) \<Rightarrow> ''[OK] '' @ m @ '' -> '' @ take 120 (strip t)
           | Inr None \<Rightarrow>
               ''['' @ classify_error none_has_no_strip @ ''] '' @ m @ '' -> '' @ take 180 none_has_no_strip
           | Inl e \<Rightarrow> ''['' @ classify_error (str_exc e) @ ''] '' @ m @ '' -> '' @ take 180 (str_exc e)))"

definition tally :: "client \<Rightarrow> string list \<Rightarrow> string \<Rightarrow> int" where
  "tally cl ms t = int (length (filter (\<lambda>m. probe_tag cl m = t) ms))"

definition tags :: "string list" where
  "tags = [''OK'', ''NOT_FOUND'', ''QUOTA_EXHAUSTED'', ''AUTH'', ''PERMISSION'', ''TIMEOUT'', ''ERROR'']"

section \<open>Properties\<close>

subsection \<open>Characters and words\<close>

lemma of_char_lower_char:
  "of_char (lower_char c) = (let n = of_char c :: nat
      in if (65 \<le> n \<and> n \<le> 90) \<or> (192 \<le> n \<and> n \<le> 222 \<and> n \<noteq> 215) then n + 32 else n)"
  by (auto simp: lower_char_def Let_def)

lemma is_space_lower_char [simp]: "is_space (lower_char c) = is_space c"
  unfolding is_space_def of_char_lower_char by (auto simp: Let_def)

lemma lower_char_idem [simp]: "lower_char (lower_char c) = lower_char c"
proof -
  have "of_char (lower_char (lower_char c)) = (of_char (lower_char c) :: nat)"
    unfolding of_char_lower_char [of "lower_char c"] by (auto simp: of_char_lower_char Let_def)
  then show ?thesis by (metis of_char_eq_iff)
qed

lemma lower_char_space: "is_space c \<Longrightarrow> lower_char c = c"
  by (auto simp: is_space_def lower_char_def Let_def)

lemma split_Nil [simp]: "split [] = []"
  by (subst split.simps) simp

lemma split_space [simp]: "is_space c \<Longrightarrow> split (c # s) = split s"
  by (subst split.simps, subst (2) split.simps) simp

lemma split_letter:
  "\<not> is_space c \<Longrightarrow>
   split (c # s) = (c # takeWhile (\<lambda>c. \<not> is_space c) s) # split (dropWhile (\<lambda>c. \<not> is_space c) s)"
  by (subst split.simps) simp

lemma split_letter_step:
  assumes "\<not> is_space c"
  shows "split (c # s) = (if starts_word s then (c # hd (split s)) # tl (split s) else [c] # split s)"
proof (cases s)
  case Nil
  with assms show ?thesis by (simp add: split_letter starts_word_def)
next
  case (Cons d s')
  with assms show ?thesis by (simp add: split_letter starts_word_def)
qed

lemma split_letter_nonempty: "starts_word s \<Longrightarrow> split s \<noteq> []"
  by (cases s) (auto simp: starts_word_def split_letter)

lemma agree_Cons:
  assumes "agree s t" "lower_char c = lower_char d"
  shows "agree (c # s) (d # t)"
proof -
  have sp: "is_space c = is_space d"
    using assms(2) by (metis is_space_lower_char)
  show ?thesis
  proof (cases "is_space c")
    case True
    with sp assms(1) show ?thesis by (simp add: agree_def starts_word_def)
  next
    case False
    with sp have nd: "\<not> is_space d" by simp
    show ?thesis
    proof (cases "starts_word s")
      case True
      with assms(1) have st: "starts_word t" by (simp add: agree_def)
      from True st obtain w ws w' ws' where ws: "split s = w # ws" "split t = w' # ws'"
        using split_letter_nonempty by (metis list.exhaust)
      with assms False nd True st show ?thesis
        by (simp add: agree_def split_letter_step starts_word_def lower_def)
    next
      case F: False
      with assms(1) have st: "\<not> starts_word t" by (simp add: agree_def)
      with assms False nd F show ?thesis
        by (simp add: agree_def split_letter_step starts_word_def lower_def)
    qed
  qed
qed

lemma agree_space_Cons:
  assumes "agree s t" "is_space c" "is_space d"
  shows "agree (c # s) (d # t)"
  using assms by (simp add: agree_def starts_word_def)

lemma agree_refl [simp]: "agree s s"
  by (simp add: agree_def)

lemma agree_append: "agree s t \<Longrightarrow> agree (u @ s) (u @ t)"
  by (induction u) (simp_all add: agree_Cons)

lemma agree_split: "agree s t \<Longrightarrow> map lower (split s) = map lower (split t)"
  by (simp add: agree_def)

lemma split_dropWhile [simp]: "split (dropWhile is_space s) = split s"
  by (induction s) simp_all

lemma split_spaces: "list_all is_space ws \<Longrightarrow> split ws = []"
  by (induction ws) simp_all

lemma agree_spaces_Nil: "list_all is_space ws \<Longrightarrow> agree ws []"
  by (cases ws) (simp_all add: agree_def starts_word_def split_spaces)

lemma split_append_spaces:
  assumes "list_all is_space ws"
  shows "split (s @ ws) = split s"
proof (induction s)
  case Nil
  then show ?case using assms by (simp add: split_spaces)
next
  case (Cons c s)
  have a: "agree (s @ ws) (s @ [])"
    using assms by (intro agree_append agree_spaces_Nil)
  then have "starts_word (s @ ws) = starts_word s" by (simp add: agree_def)
  with Cons show ?case by (cases "is_space c") (simp_all add: split_letter_step)
qed

lemma strip_decompose:
  "\<exists>ws. list_all is_space ws \<and> dropWhile is_space s = strip s @ ws"
proof -
  let ?t = "dropWhile is_space s"
  have "rev (dropWhile is_space (rev ?t)) @ rev (takeWhile is_space (rev ?t)) = ?t"
    by (metis rev_append rev_rev_ident takeWhile_dropWhile_id)
  moreover have "list_all is_space (rev (takeWhile is_space (rev ?t)))"
    by (auto simp: list_all_iff dest: set_takeWhileD)
  ultimately show ?thesis unfolding strip_def by metis
qed

lemma split_strip [simp]: "split (strip s) = split s"
proof -
  obtain ws where "list_all is_space ws" "dropWhile is_space s = strip s @ ws"
    using strip_decompose by blast
  then have "split (strip s) = split (dropWhile is_space s)"
    by (simp add: split_append_spaces)
  then show ?thesis by simp
qed

lemma lower_Nil [simp]: "lower [] = []"
  by (simp add: lower_def)

lemma lower_Cons [simp]: "lower (c # s) = lower_char c # lower s"
  by (simp add: lower_def)

lemma lower_append [simp]: "lower (a @ b) = lower a @ lower b"
  by (simp add: lower_def)

lemma lower_char_blank [simp]: "lower_char CHR '' '' = CHR '' ''"
  by (simp add: lower_char_def)

lemma lower_join: "lower (join '' '' ws) = join '' '' (map lower ws)"
  by (induction "'' ''" ws rule: join.induct) simp_all

lemma normalize_topic_words:
  "normalize_topic s = join '' '' (map lower (split s))"
  by (simp add: normalize_topic_def lower_join)

lemma split_words:
  "w \<in> set (split s) \<Longrightarrow> w \<noteq> [] \<and> list_all (\<lambda>c. \<not> is_space c) w"
proof (induction s arbitrary: w rule: split.induct)
  case (1 s)
  let ?t = "dropWhile is_space s"
  show ?case
  proof (cases "?t = []")
    case True
    then have "split s = []" by (subst split.simps) (simp del: dropWhile_eq_Nil_conv)
    with "1.prems" show ?thesis by simp
  next
    case False
    from False have "split s =
        takeWhile (\<lambda>c. \<not> is_space c) ?t # split (dropWhile (\<lambda>c. \<not> is_space c) ?t)"
      by (subst split.simps) (simp add: Let_def del: dropWhile_eq_Nil_conv)
    with "1.prems"
    consider "w = takeWhile (\<lambda>c. \<not> is_space c) ?t"
      | "w \<in> set (split (dropWhile (\<lambda>c. \<not> is_space c) ?t))"
      by auto
    then show ?thesis
    proof cases
      case 1
      from False have "\<not> is_space (hd ?t)" by (rule hd_dropWhile)
      with False have "takeWhile (\<lambda>c. \<not> is_space c) ?t \<noteq> []"
        by (cases ?t) auto
      with 1 show ?thesis by (auto simp: list_all_iff dest: set_takeWhileD)
    next
      case 2
      with "1.IH" [OF refl False] show ?thesis by simp
    qed
  qed
qed

lemma split_word_append:
  "w \<noteq> [] \<Longrightarrow> list_all (\<lambda>c. \<not> is_space c) w \<Longrightarrow> \<not> starts_word r \<Longrightarrow>
   split (w @ r) = w # split r"
proof (induction w)
  case Nil
  then show ?case by simp
next
  case (Cons c w)
  show ?case
  proof (cases "w = []")
    case True
    with Cons.prems show ?thesis by (simp add: split_letter_step)
  next
    case False
    with Cons.prems have "starts_word (w @ r)"
      by (cases w) (simp_all add: starts_word_def)
    moreover from Cons False have "split (w @ r) = w # split r" by simp
    ultimately show ?thesis using Cons.prems by (simp add: split_letter_step)
  qed
qed

lemma split_join:
  "list_all (\<lambda>w. w \<noteq> [] \<and> list_all (\<lambda>c. \<not> is_space c) w) ws \<Longrightarrow>
   split (join '' '' ws) = ws"
proof (induction "'' ''" ws rule: join.induct)
  case 1
  then show ?case by simp
next
  case (2 w)
  then have "split (w @ []) = w # split []"
    by (intro split_word_append) (simp_all add: starts_word_def)
  then show ?case by simp
next
  case (3 w v ws)
  have sp: "is_space CHR '' ''" by (simp add: is_space_def)
  from 3 have "split (w @ '' '' @ join '' '' (v # ws)) = w # split ('' '' @ join '' '' (v # ws))"
    by (intro split_word_append) (simp_all add: starts_word_def sp)
  with 3 sp show ?case by simp
qed

lemma lower_word:
  "w \<noteq> [] \<and> list_all (\<lambda>c. \<not> is_space c) w \<Longrightarrow>
   lower w \<noteq> [] \<and> list_all (\<lambda>c. \<not> is_space c) (lower w)"
  by (simp add: lower_def list_all_iff)

lemma lower_idem [simp]: "lower (lower s) = lower s"
  by (simp add: lower_def)

lemma normalize_topic_idem: "normalize_topic (normalize_topic s) = normalize_topic s"
proof -
  have "w \<noteq> [] \<and> list_all (\<lambda>c. \<not> is_space c) w" if "w \<in> set (map lower (split s))" for w
  proof -
    from that obtain v where "v \<in> set (split s)" "w = lower v" by auto
    then show ?thesis using split_words [of v s] lower_word [of v] by simp
  qed
  then have "list_all (\<lambda>w. w \<noteq> [] \<and> list_all (\<lambda>c. \<not> is_space c) w) (map lower (split s))"
    unfolding list_all_iff by blast
  then have "split (join '' '' (map lower (split s))) = map lower (split s)"
    by (rule split_join)
  then show ?thesis by (simp add: normalize_topic_words comp_def)
qed

subsection \<open>The words of a string of code points\<close>

lemma split_u_Nil [simp]: "split_u db [] = []"
  by (subst split_u.simps) simp

lemma split_u_space [simp]: "u_space db c \<Longrightarrow> split_u db (c # s) = split_u db s"
  by (subst split_u.simps, subst (2) split_u.simps) simp

lemma split_u_letter:
  "\<not> u_space db c \<Longrightarrow>
   split_u db (c # s) =
     (c # takeWhile (\<lambda>c. \<not> u_space db c) s) # split_u db (dropWhile (\<lambda>c. \<not> u_space db c) s)"
  by (subst split_u.simps) simp

lemma split_u_letter_step:
  assumes "\<not> u_space db c"
  shows "split_u db (c # s) =
    (if starts_word_u db s then (c # hd (split_u db s)) # tl (split_u db s) else [c] # split_u db s)"
proof (cases s)
  case Nil
  with assms show ?thesis by (simp add: split_u_letter starts_word_u_def)
next
  case (Cons d s')
  with assms show ?thesis by (simp add: split_u_letter starts_word_u_def)
qed

lemma split_u_letter_nonempty: "starts_word_u db s \<Longrightarrow> split_u db s \<noteq> []"
  by (cases s) (auto simp: starts_word_u_def split_u_letter)

lemma lower_each_Nil [simp]: "lower_each db [] = []"
  by (simp add: lower_each_def)

lemma lower_each_Cons [simp]: "lower_each db (c # s) = u_lower db c @ lower_each db s"
  by (simp add: lower_each_def)

lemma lower_each_append [simp]: "lower_each db (a @ b) = lower_each db a @ lower_each db b"
  by (simp add: lower_each_def)

lemma same_lower_same_space:
  assumes "ucd_ok db" "u_lower db c = u_lower db d"
  shows "u_space db c = u_space db d"
proof -
  have "u_space db y" if "u_space db x" "u_lower db x = u_lower db y" for x y
  proof (rule ccontr)
    assume n: "\<not> u_space db y"
    from assms(1) that(1) have "u_lower db x = [x]" by (simp add: ucd_ok_def)
    moreover from assms(1) n have "list_all (\<lambda>d. \<not> u_space db d) (u_lower db y)"
      by (simp add: ucd_ok_def)
    ultimately show False using that by simp
  qed
  from this [of c d] this [of d c] assms(2) show ?thesis by auto
qed

lemma agree_u_Cons:
  assumes "ucd_ok db" "agree_u db s t" "u_lower db c = u_lower db d"
  shows "agree_u db (c # s) (d # t)"
proof -
  have sp: "u_space db c = u_space db d"
    using assms(1,3) by (rule same_lower_same_space)
  show ?thesis
  proof (cases "u_space db c")
    case True
    with sp assms(2) show ?thesis by (simp add: agree_u_def starts_word_u_def)
  next
    case False
    with sp have nd: "\<not> u_space db d" by simp
    show ?thesis
    proof (cases "starts_word_u db s")
      case True
      with assms(2) have st: "starts_word_u db t" by (simp add: agree_u_def)
      from True st obtain w ws w' ws' where ws: "split_u db s = w # ws" "split_u db t = w' # ws'"
        using split_u_letter_nonempty by (metis list.exhaust)
      with assms False nd True st show ?thesis
        by (simp add: agree_u_def split_u_letter_step starts_word_u_def)
    next
      case F: False
      with assms(2) have st: "\<not> starts_word_u db t" by (simp add: agree_u_def)
      with assms False nd F show ?thesis
        by (simp add: agree_u_def split_u_letter_step starts_word_u_def)
    qed
  qed
qed


lemma agree_u_refl [simp]: "agree_u db s s"
  by (simp add: agree_u_def)

lemma agree_u_append: "ucd_ok db \<Longrightarrow> agree_u db s t \<Longrightarrow> agree_u db (u @ s) (u @ t)"
  by (induction u) (simp_all add: agree_u_Cons)


lemma split_u_dropWhile [simp]: "split_u db (dropWhile (u_space db) s) = split_u db s"
  by (induction s) simp_all

lemma split_u_spaces: "list_all (u_space db) ws \<Longrightarrow> split_u db ws = []"
  by (induction ws) simp_all

lemma agree_u_spaces_Nil: "list_all (u_space db) ws \<Longrightarrow> agree_u db ws []"
  by (cases ws) (simp_all add: agree_u_def starts_word_u_def split_u_spaces)

lemma split_u_append_spaces:
  assumes "ucd_ok db" "list_all (u_space db) ws"
  shows "split_u db (s @ ws) = split_u db s"
proof (induction s)
  case Nil
  then show ?case using assms by (simp add: split_u_spaces)
next
  case (Cons c s)
  have a: "agree_u db (s @ ws) (s @ [])"
    using assms by (intro agree_u_append agree_u_spaces_Nil)
  then have "starts_word_u db (s @ ws) = starts_word_u db s" by (simp add: agree_u_def)
  with Cons show ?case by (cases "u_space db c") (simp_all add: split_u_letter_step)
qed

lemma strip_u_decompose:
  "\<exists>ws. list_all (u_space db) ws \<and> dropWhile (u_space db) s = strip_u db s @ ws"
proof -
  let ?t = "dropWhile (u_space db) s"
  have "rev (dropWhile (u_space db) (rev ?t)) @ rev (takeWhile (u_space db) (rev ?t)) = ?t"
    by (metis rev_append rev_rev_ident takeWhile_dropWhile_id)
  moreover have "list_all (u_space db) (rev (takeWhile (u_space db) (rev ?t)))"
    by (auto simp: list_all_iff dest: set_takeWhileD)
  ultimately show ?thesis unfolding strip_u_def by metis
qed

lemma split_u_strip [simp]: "ucd_ok db \<Longrightarrow> split_u db (strip_u db s) = split_u db s"
proof -
  assume ok: "ucd_ok db"
  obtain ws where "list_all (u_space db) ws" "dropWhile (u_space db) s = strip_u db s @ ws"
    using strip_u_decompose by blast
  then have "split_u db (strip_u db s) = split_u db (dropWhile (u_space db) s)"
    by (simp add: split_u_append_spaces [OF ok])
  then show ?thesis by simp
qed



text \<open>Without a capital sigma, \<open>str.lower\<close> works one code point at a time.\<close>

lemma lower_from_each: "capital_sigma \<notin> set s \<Longrightarrow> lower_from db seen s = lower_each db s"
  by (induction s arbitrary: seen) auto





subsection \<open>The 8-bit model is the model on code points, below 256\<close>


lemma u_space_of_char [simp]: "u_space ucd0 (of_char c) = is_space c"
  by (simp add: ucd0_def is_space_def)

lemma u_lower_of_char [simp]: "u_lower ucd0 (of_char c) = [of_char (lower_char c)]"
proof -
  have "(of_char c :: nat) < 256" by simp
  then have "(of_char c :: nat) \<noteq> 0x394 \<and> (of_char c :: nat) \<noteq> 0x39F \<and> (of_char c :: nat) \<noteq> 0x3A3"
    by linarith
  then show ?thesis by (simp add: ucd0_def of_char_lower_char Let_def)
qed

lemma dropWhile_code_points:
  "dropWhile (u_space ucd0) (code_points s) = code_points (dropWhile is_space s)"
  by (simp add: code_points_def dropWhile_map comp_def)

lemma dropWhile_not_code_points:
  "dropWhile (\<lambda>c. \<not> u_space ucd0 c) (code_points s) = code_points (dropWhile (\<lambda>c. \<not> is_space c) s)"
  by (simp add: code_points_def dropWhile_map comp_def)

lemma takeWhile_not_code_points:
  "takeWhile (\<lambda>c. \<not> u_space ucd0 c) (code_points s) = code_points (takeWhile (\<lambda>c. \<not> is_space c) s)"
  by (simp add: code_points_def takeWhile_map comp_def)

lemma strip_u_code_points: "strip_u ucd0 (code_points s) = code_points (strip s)"
proof -
  have r: "rev (code_points x) = code_points (rev x)" for x
    by (simp add: code_points_def rev_map)
  show ?thesis
    by (simp add: strip_u_def strip_def dropWhile_code_points r)
qed

lemma split_u_code_points: "split_u ucd0 (code_points s) = map code_points (split s)"
proof (induction s rule: split.induct)
  case (1 s)
  let ?t = "dropWhile is_space s"
  show ?case
  proof (cases "?t = []")
    case True
    then have "split s = []" by (subst split.simps) (simp del: dropWhile_eq_Nil_conv)
    moreover have "dropWhile (u_space ucd0) (code_points s) = code_points ?t"
      by (rule dropWhile_code_points)
    with True have "dropWhile (u_space ucd0) (code_points s) = []"
      by (simp add: code_points_def del: dropWhile_eq_Nil_conv)
    then have "split_u ucd0 (code_points s) = []"
      by (subst split_u.simps) (simp del: dropWhile_eq_Nil_conv)
    ultimately show ?thesis by simp
  next
    case False
    then have a: "split s =
        takeWhile (\<lambda>c. \<not> is_space c) ?t # split (dropWhile (\<lambda>c. \<not> is_space c) ?t)"
      by (subst split.simps) (simp add: Let_def del: dropWhile_eq_Nil_conv)
    from False have ne: "code_points ?t \<noteq> []" by (simp add: code_points_def)
    have b: "split_u ucd0 (code_points s) =
        takeWhile (\<lambda>c. \<not> u_space ucd0 c) (code_points ?t)
          # split_u ucd0 (dropWhile (\<lambda>c. \<not> u_space ucd0 c) (code_points ?t))"
      using ne by (subst split_u.simps) (simp add: Let_def dropWhile_code_points del: dropWhile_eq_Nil_conv)
    from "1.IH" [OF refl False] a b show ?thesis
      by (simp add: takeWhile_not_code_points dropWhile_not_code_points)
  qed
qed

lemma join_u_code_points: "join_u [0x20] (map code_points ws) = code_points (join '' '' ws)"
  by (induction "'' ''" ws rule: join.induct) (simp_all add: code_points_def)

lemma no_sigma_code_points: "capital_sigma \<notin> set (code_points s)"
proof
  assume "capital_sigma \<in> set (code_points s)"
  then obtain c :: char where "capital_sigma = of_char c" by (auto simp: code_points_def)
  moreover have "(of_char c :: nat) < 256" by simp
  ultimately show False by (simp add: capital_sigma_def)
qed

lemma lower_u_code_points: "lower_u ucd0 (code_points s) = code_points (lower s)"
proof -
  have "lower_u ucd0 (code_points s) = lower_each ucd0 (code_points s)"
    by (simp add: lower_u_def lower_from_each no_sigma_code_points)
  also have "\<dots> = code_points (lower s)"
    by (induction s) (simp_all add: code_points_def)
  finally show ?thesis .
qed

lemma normalize_topic_u_code_points:
  "normalize_topic_u ucd0 (code_points s) = code_points (normalize_topic s)"
  by (simp add: normalize_topic_u_def normalize_topic_def strip_u_code_points split_u_code_points
      join_u_code_points lower_u_code_points)


subsection \<open>C8: \<open>normalize_topic\<close>, letter case and whitespace runs\<close>




subsection \<open>Loading and saving the progress store\<close>

lemma update_fresh: "k \<notin> fst ` set al \<Longrightarrow> AList.update k v al = al @ [(k, v)]"
  by (induction al) auto

lemma dict_get_fresh: "k \<notin> fst ` set d \<Longrightarrow> dict_get d k dflt = dflt"
  by (simp add: dict_get_def map_of_eq_None_iff [THEN iffD2])

lemma good_dict_set:
  "good_dict d \<Longrightarrow> good_key k \<Longrightarrow> good_dict (dict_set d k v)"
  by (auto simp: good_dict_def dict_set_def distinct_update list_all_iff dom_update)

lemma good_key_normalize: "normalize_topic s \<noteq> [] \<Longrightarrow> good_key (normalize_topic s)"
  by (simp add: good_key_def normalize_topic_idem)

lemma load_loop_good: "good_dict cleaned \<Longrightarrow> good_dict (load_loop cleaned kvs)"
  by (induction cleaned kvs rule: load_loop.induct)
    (auto simp: Let_def good_dict_set good_key_normalize split: sum.splits)

lemma load_loop_dump:
  "good_dict (acc @ data) \<Longrightarrow>
   load_loop acc (map (\<lambda>(k, v). (k, JInt v)) data) = acc @ data"
proof (induction data arbitrary: acc)
  case Nil
  then show ?case by simp
next
  case (Cons kv data)
  obtain k v where kv: "kv = (k, v)" by (cases kv)
  from Cons.prems kv have k: "good_key k" "k \<notin> fst ` set acc"
    by (auto simp: good_dict_def)
  then have step: "dict_set acc k (dict_get acc k 0 + v) = acc @ [(k, v)]"
    by (simp add: dict_set_def update_fresh dict_get_fresh)
  from Cons.prems kv have "good_dict ((acc @ [(k, v)]) @ data)" by simp
  then have "load_loop (acc @ [(k, v)]) (map (\<lambda>(k, v). (k, JInt v)) data) = (acc @ [(k, v)]) @ data"
    by (rule Cons.IH)
  with k step kv show ?case by (simp add: good_key_def)
qed

lemma good_dict_Nil [simp]: "good_dict []"
  by (simp add: good_dict_def)

lemma read_progress_dump: "good_dict data \<Longrightarrow> read_progress (Inr (dump data)) = Inr data"
  using load_loop_dump [of "[]" data] by (simp add: read_progress_def dump_def)

lemma read_progress_good: "read_progress p = Inr data \<Longrightarrow> good_dict data"
  by (auto simp: read_progress_def Let_def load_loop_good split: sum.splits json.splits)

lemma dict_get_set: "dict_get (dict_set d k v) k' dflt = (if k' = k then v else dict_get d k' dflt)"
  by (simp add: dict_get_def dict_set_def update_conv')

lemma map_of_dict_set: "map_of (dict_set d k v) = (map_of d)(k \<mapsto> v)"
  by (simp add: dict_set_def update_conv')

lemma update_progress_blank:
  "normalize_topic topic = [] \<Longrightarrow> update_progress w topic = (Inr (), w)"
  by (simp add: update_progress_def)

lemma update_progress_step:
  assumes "normalize_topic topic \<noteq> []" "read_progress (progress_file w) = Inr data"
  shows "update_progress w topic =
           (Inr (), w\<lparr>progress_file := Inr (dump (dict_set data (normalize_topic topic)
                                                 (dict_get data (normalize_topic topic) 0 + 1))),
                     io_log := io_log w @ [ReadProgress, WriteProgress]\<rparr>)"
  using assms by (simp add: update_progress_def load_progress_def save_progress_def Let_def)

lemma update_progress_reload:
  assumes "normalize_topic topic \<noteq> []" "read_progress (progress_file w) = Inr data"
  shows "read_progress (progress_file (snd (update_progress w topic))) =
           Inr (dict_set data (normalize_topic topic) (dict_get data (normalize_topic topic) 0 + 1))"
proof -
  have "good_dict (dict_set data (normalize_topic topic) (dict_get data (normalize_topic topic) 0 + 1))"
    using assms by (intro good_dict_set read_progress_good good_key_normalize)
  then show ?thesis
    using assms by (simp add: update_progress_step read_progress_dump)
qed

lemma w0_read: "read_progress (progress_file world0) = Inr [(''linear algebra'', 5), (''logic'', 6), (''graphs'', 3), (''proofs'', 2)]"
  by code_simp

lemma update_all_same_key:
  "k \<noteq> [] \<Longrightarrow> list_all (\<lambda>t. normalize_topic t = k) ts \<Longrightarrow>
   read_progress (progress_file w) = Inr data \<Longrightarrow>
   \<exists>w' data'. update_all w ts = (Inr (), w')
      \<and> read_progress (progress_file w') = Inr data'
      \<and> dict_get data' k 0 = dict_get data k 0 + int (length ts)"
proof (induction ts arbitrary: w data)
  case Nil
  then show ?case by simp
next
  case (Cons t ts)
  from Cons.prems have t: "normalize_topic t = k" "normalize_topic t \<noteq> []" by simp_all
  let ?d = "dict_set data k (dict_get data k 0 + 1)"
  from t Cons.prems(3) obtain w1 where up: "update_progress w t = (Inr (), w1)"
    and rd: "read_progress (progress_file w1) = Inr ?d"
    using update_progress_reload [of t w data] update_progress_step [of t w data] by simp
  from Cons.prems have "list_all (\<lambda>t. normalize_topic t = k) ts" by simp
  from Cons.IH [OF Cons.prems(1) this rd]
  obtain w' data' where "update_all w1 ts = (Inr (), w')"
    "read_progress (progress_file w') = Inr data'"
    "dict_get data' k 0 = dict_get ?d k 0 + int (length ts)" by blast
  with up show ?case by (simp add: dict_get_set)
qed

subsection \<open>C3: the difficulty tiers\<close>

text \<open>
  C3. On a store that loads, \<open>get_difficulty\<close> looks up the count of the normalized
  topic, 0 when the topic is not stored, and returns \<open>easy\<close> exactly when the count
  is above 5, \<open>medium\<close> exactly when it is above 2 and at most 5, and \<open>hard\<close>
  exactly when it is at most 2. It reads the store once and changes nothing else.
\<close>

theorem get_difficulty_tiers:
  "read_progress (progress_file w) = Inr data \<Longrightarrow>
   \<exists>tier. get_difficulty w topic = (Inr tier, w\<lparr>io_log := io_log w @ [ReadProgress]\<rparr>)
     \<and> (tier = ''easy'' \<longleftrightarrow> dict_get data (normalize_topic topic) 0 > 5)
     \<and> (tier = ''medium'' \<longleftrightarrow> 2 < dict_get data (normalize_topic topic) 0
                                  \<and> dict_get data (normalize_topic topic) 0 \<le> 5)
     \<and> (tier = ''hard'' \<longleftrightarrow> dict_get data (normalize_topic topic) 0 \<le> 2)"
  by (auto simp: get_difficulty_def load_progress_def Let_def)

theorem get_difficulty_tiers_witness:
  "get_difficulty world0 ''Proofs'' = (Inr ''hard'', world0\<lparr>io_log := [ReadProgress]\<rparr>)
   \<and> get_difficulty world0 ''graphs'' = (Inr ''medium'', world0\<lparr>io_log := [ReadProgress]\<rparr>)
   \<and> get_difficulty world0 ''Linear Algebra'' = (Inr ''medium'', world0\<lparr>io_log := [ReadProgress]\<rparr>)
   \<and> get_difficulty world0 ''LOGIC'' = (Inr ''easy'', world0\<lparr>io_log := [ReadProgress]\<rparr>)
   \<and> get_difficulty world0 ''topology'' = (Inr ''hard'', world0\<lparr>io_log := [ReadProgress]\<rparr>)"
proof -
  let ?data = "[(''linear algebra'', 5), (''logic'', 6), (''graphs'', 3), (''proofs'', 2)] :: int dict"
  have n: "normalize_topic ''Proofs'' = ''proofs''" "normalize_topic ''graphs'' = ''graphs''"
    "normalize_topic ''Linear Algebra'' = ''linear algebra''" "normalize_topic ''LOGIC'' = ''logic''"
    "normalize_topic ''topology'' = ''topology''"
    by code_simp+
  have g: "dict_get ?data ''proofs'' 0 = 2" "dict_get ?data ''graphs'' 0 = 3"
    "dict_get ?data ''linear algebra'' 0 = 5" "dict_get ?data ''logic'' 0 = 6"
    "dict_get ?data ''topology'' 0 = 0"
    by (simp_all add: dict_get_def)
  have l: "io_log world0 = []" by (simp add: world0_def)
  show ?thesis
    using get_difficulty_tiers [OF w0_read, of "''Proofs''"]
      get_difficulty_tiers [OF w0_read, of "''graphs''"]
      get_difficulty_tiers [OF w0_read, of "''Linear Algebra''"]
      get_difficulty_tiers [OF w0_read, of "''LOGIC''"]
      get_difficulty_tiers [OF w0_read, of "''topology''"]
    unfolding n g l by simp
qed

subsection \<open>C4: \<open>update_progress\<close> counts every call\<close>

text \<open>
  C4. \<open>update_progress\<close> returns the state as it is, without a read or a write, when
  the topic normalizes to the empty string. Otherwise, on a store that loads, it adds 1
  to the count of the normalized topic and writes the whole dictionary back, so that
  reloading gives the new dictionary; and after the first \<open>n\<close> calls on topics with
  the same normalized form the reloaded count is \<open>n\<close> more than before.
\<close>

theorem update_progress_counts:
  "(normalize_topic topic = [] \<longrightarrow> update_progress w topic = (Inr (), w))
   \<and> (normalize_topic topic \<noteq> [] \<and> read_progress (progress_file w) = Inr data \<longrightarrow>
        (\<exists>w' data'. update_progress w topic = (Inr (), w')
           \<and> data' = dict_set data (normalize_topic topic) (dict_get data (normalize_topic topic) 0 + 1)
           \<and> progress_file w' = Inr (dump data')
           \<and> read_progress (progress_file w') = Inr data'
           \<and> dict_get data' (normalize_topic topic) 0 = dict_get data (normalize_topic topic) 0 + 1
           \<and> io_log w' = io_log w @ [ReadProgress, WriteProgress]))
   \<and> (k \<noteq> [] \<and> list_all (\<lambda>t. normalize_topic t = k) ts
        \<and> read_progress (progress_file w) = Inr data \<and> n \<le> length ts \<longrightarrow>
        (\<exists>w' data'. update_all w (take n ts) = (Inr (), w')
           \<and> read_progress (progress_file w') = Inr data'
           \<and> dict_get data' k 0 = dict_get data k 0 + int n))"
proof (intro conjI impI)
  assume "normalize_topic topic = []"
  then show "update_progress w topic = (Inr (), w)" by (rule update_progress_blank)
next
  assume a: "normalize_topic topic \<noteq> [] \<and> read_progress (progress_file w) = Inr data"
  let ?k = "normalize_topic topic"
  let ?d = "dict_set data ?k (dict_get data ?k 0 + 1)"
  let ?w = "snd (update_progress w topic)"
  from a have "update_progress w topic = (Inr (), ?w)" by (simp add: update_progress_step)
  moreover from a have "progress_file ?w = Inr (dump ?d)" by (simp add: update_progress_step)
  moreover from a have "read_progress (progress_file ?w) = Inr ?d"
    using update_progress_reload [of topic w data] by simp
  moreover have "dict_get ?d ?k 0 = dict_get data ?k 0 + 1" by (simp add: dict_get_set)
  moreover from a have "io_log ?w = io_log w @ [ReadProgress, WriteProgress]"
    by (simp add: update_progress_step)
  ultimately show "\<exists>w' data'. update_progress w topic = (Inr (), w')
           \<and> data' = ?d
           \<and> progress_file w' = Inr (dump data')
           \<and> read_progress (progress_file w') = Inr data'
           \<and> dict_get data' ?k 0 = dict_get data ?k 0 + 1
           \<and> io_log w' = io_log w @ [ReadProgress, WriteProgress]" by blast
next
  assume a: "k \<noteq> [] \<and> list_all (\<lambda>t. normalize_topic t = k) ts
        \<and> read_progress (progress_file w) = Inr data \<and> n \<le> length ts"
  then have "list_all (\<lambda>t. normalize_topic t = k) (take n ts)"
    by (auto simp: list_all_iff dest: in_set_takeD)
  with a update_all_same_key [of k "take n ts" w data]
  show "\<exists>w' data'. update_all w (take n ts) = (Inr (), w')
           \<and> read_progress (progress_file w') = Inr data'
           \<and> dict_get data' k 0 = dict_get data k 0 + int n" by simp
qed

theorem update_progress_counts_witness:
  "update_progress world0 ''   '' = (Inr (), world0)
   \<and> (\<exists>w' data'. update_progress world0 '' LINEAR algebra'' = (Inr (), w')
         \<and> data' = [(''linear algebra'', 6), (''logic'', 6), (''graphs'', 3), (''proofs'', 2)]
         \<and> progress_file w' = Inr (dump data')
         \<and> read_progress (progress_file w') = Inr data'
         \<and> dict_get data' ''linear algebra'' 0 = 6
         \<and> io_log w' = [ReadProgress, WriteProgress])
   \<and> (\<exists>w' data'. update_all world0 ['' LINEAR algebra'', ''Linear Algebra''] = (Inr (), w')
         \<and> read_progress (progress_file w') = Inr data'
         \<and> dict_get data' ''linear algebra'' 0 = 7)"
proof -
  have n0: "normalize_topic ''   '' = []" by code_simp
  have n1: "normalize_topic '' LINEAR algebra'' = ''linear algebra''" by code_simp
  have n2: "normalize_topic ''Linear Algebra'' = ''linear algebra''" by code_simp
  have g: "dict_get [(''linear algebra'', 5), (''logic'', 6), (''graphs'', 3), (''proofs'', 2)] ''linear algebra'' (0::int) = 5"
    by (simp add: dict_get_def)
  have s: "dict_set [(''linear algebra'', 5), (''logic'', 6), (''graphs'', 3), (''proofs'', 2)] ''linear algebra'' (6::int)
             = [(''linear algebra'', 6), (''logic'', 6), (''graphs'', 3), (''proofs'', 2)]"
    by (simp add: dict_set_def)
  have l: "io_log world0 = []" by (simp add: world0_def)
  have a: "update_progress world0 ''   '' = (Inr (), world0)"
    using update_progress_counts [of "''   ''" world0] n0 by simp
  have b: "\<exists>w' data'. update_progress world0 '' LINEAR algebra'' = (Inr (), w')
         \<and> data' = [(''linear algebra'', 6), (''logic'', 6), (''graphs'', 3), (''proofs'', 2)]
         \<and> progress_file w' = Inr (dump data')
         \<and> read_progress (progress_file w') = Inr data'
         \<and> dict_get data' ''linear algebra'' 0 = 6
         \<and> io_log w' = [ReadProgress, WriteProgress]"
    using update_progress_counts [of "'' LINEAR algebra''" world0 "[(''linear algebra'', 5), (''logic'', 6), (''graphs'', 3), (''proofs'', 2)]"]
      n1 w0_read g s l by simp
  have c: "\<exists>w' data'. update_all world0 ['' LINEAR algebra'', ''Linear Algebra''] = (Inr (), w')
         \<and> read_progress (progress_file w') = Inr data'
         \<and> dict_get data' ''linear algebra'' 0 = 7"
    using update_progress_counts [of _ world0 "[(''linear algebra'', 5), (''logic'', 6), (''graphs'', 3), (''proofs'', 2)]"
        "''linear algebra''" "['' LINEAR algebra'', ''Linear Algebra'']" 2]
      n1 n2 w0_read g by simp
  from a b c show ?thesis by blast
qed

subsection \<open>C10: \<open>update_progress\<close> leaves the other topics alone\<close>

text \<open>
  C10. When the topic \<open>t\<close> has a non-empty normalized form and the store loads,
  \<open>update_progress\<close> leaves the entry of every key other than the normalized form of
  \<open>t\<close> as it was loaded: present with the same count, or absent.
\<close>

theorem update_progress_frame:
  "normalize_topic t \<noteq> [] \<Longrightarrow> read_progress (progress_file w) = Inr data \<Longrightarrow>
   k \<noteq> normalize_topic t \<Longrightarrow>
   \<exists>w' data'. update_progress w t = (Inr (), w')
      \<and> read_progress (progress_file w') = Inr data'
      \<and> map_of data' k = map_of data k"
proof -
  assume a: "normalize_topic t \<noteq> []" "read_progress (progress_file w) = Inr data"
    and k: "k \<noteq> normalize_topic t"
  let ?d = "dict_set data (normalize_topic t) (dict_get data (normalize_topic t) 0 + 1)"
  let ?w = "snd (update_progress w t)"
  from a have "update_progress w t = (Inr (), ?w)" by (simp add: update_progress_step)
  moreover from a have "read_progress (progress_file ?w) = Inr ?d"
    by (rule update_progress_reload)
  moreover from k have "map_of ?d k = map_of data k" by (simp add: map_of_dict_set)
  ultimately show ?thesis by blast
qed

theorem update_progress_frame_witness:
  "\<exists>w' data'. update_progress world0 ''Linear Algebra'' = (Inr (), w')
      \<and> read_progress (progress_file w') = Inr data'
      \<and> map_of data' ''logic'' = Some 6"
proof -
  have n: "normalize_topic ''Linear Algebra'' = ''linear algebra''" by code_simp
  show ?thesis
    using update_progress_frame [of "''Linear Algebra''" world0
        "[(''linear algebra'', 5), (''logic'', 6), (''graphs'', 3), (''proofs'', 2)]" "''logic''"] n w0_read
    by simp
qed

subsection \<open>C2: \<open>run_and_track\<close>\<close>

lemma save_note_eq:
  "save_note w (Some text) =
     (Inr (clock w @ ''.txt''),
      w\<lparr>note_files := (note_files w)(clock w @ ''.txt'' \<mapsto> text),
        io_log := io_log w @ [WriteNote (clock w @ ''.txt'')]\<rparr>)"
  by (simp add: save_note_def Let_def)

lemma not_failure_text: "is_api_error_text (Some ''Sets are collections.'') = Inr False"
  by (simp add: is_api_error_text_def startswith_def)

lemma failure_text: "is_api_error_text (Some ''Gemini API Error: 429 quota'') = Inr True"
  by (simp add: is_api_error_text_def startswith_def)

lemma is_api_error_text_prefix:
  "is_api_error_text (Some s) = Inr (prefix ''Gemini API Error:'' s)"
  by (simp add: is_api_error_text_def startswith_def)

text \<open>
  A result that is \<open>None\<close>, which \<open>generate\<close> returns when \<open>_extract_text\<close> does,
  makes the prefix check raise; the state is then the one the operation left.
\<close>

lemma run_and_track_none:
  "fn w = (Inr None, w1) \<Longrightarrow>
   run_and_track w topic fn = (Inl (AttributeError none_has_no_startswith), w1)"
  by (simp add: run_and_track_def is_api_error_text_def)

text \<open>
  C2, as the code has it, for an operation whose result is a string. When the operation
  returns a failure string (one that starts
  with \<open>Gemini API Error:\<close>), \<open>run_and_track\<close> returns that string with no note and
  the state is the one the operation left: no count changes, no note is written, no
  store is read. When it returns another string and the store loads, the count of a
  topic whose normalized form is non-empty goes up by exactly 1, while a topic that
  normalizes to the empty string leaves the store untouched; in both cases the result is
  written to the note named by the clock's timestamp, which is one new file unless a
  note of that name exists, and then that note is overwritten.
\<close>

theorem run_and_track_effects:
  "(fn w = (Inr (Some result), w1) \<and> is_api_error_text (Some result) = Inr True \<longrightarrow>
      run_and_track w topic fn = (Inr (Some result, None), w1))
   \<and> (fn w = (Inr (Some result), w1) \<and> is_api_error_text (Some result) = Inr False \<and> normalize_topic topic \<noteq> []
        \<and> read_progress (progress_file w1) = Inr data \<longrightarrow>
        (\<exists>w' data'. run_and_track w topic fn = (Inr (Some result, Some (clock w1 @ ''.txt'')), w')
           \<and> read_progress (progress_file w') = Inr data'
           \<and> dict_get data' (normalize_topic topic) 0 = dict_get data (normalize_topic topic) 0 + 1
           \<and> note_files w' = (note_files w1)(clock w1 @ ''.txt'' \<mapsto> result)
           \<and> dom (note_files w') - dom (note_files w1)
               = (if clock w1 @ ''.txt'' \<in> dom (note_files w1) then {} else {clock w1 @ ''.txt''})
           \<and> io_log w' = io_log w1 @ [ReadProgress, WriteProgress, WriteNote (clock w1 @ ''.txt'')]))
   \<and> (fn w = (Inr (Some result), w1) \<and> is_api_error_text (Some result) = Inr False \<and> normalize_topic topic = [] \<longrightarrow>
        (\<exists>w'. run_and_track w topic fn = (Inr (Some result, Some (clock w1 @ ''.txt'')), w')
           \<and> progress_file w' = progress_file w1
           \<and> note_files w' = (note_files w1)(clock w1 @ ''.txt'' \<mapsto> result)
           \<and> io_log w' = io_log w1 @ [WriteNote (clock w1 @ ''.txt'')]))"
proof (intro conjI impI)
  assume "fn w = (Inr (Some result), w1) \<and> is_api_error_text (Some result) = Inr True"
  then show "run_and_track w topic fn = (Inr (Some result, None), w1)"
    by (simp add: run_and_track_def)
next
  assume a: "fn w = (Inr (Some result), w1) \<and> is_api_error_text (Some result) = Inr False \<and> normalize_topic topic \<noteq> []
        \<and> read_progress (progress_file w1) = Inr data"
  let ?k = "normalize_topic topic"
  let ?d = "dict_set data ?k (dict_get data ?k 0 + 1)"
  let ?f = "clock w1 @ ''.txt''"
  define w2 where "w2 = w1\<lparr>progress_file := Inr (dump ?d),
                            io_log := io_log w1 @ [ReadProgress, WriteProgress]\<rparr>"
  define w3 where "w3 = w2\<lparr>note_files := (note_files w2)(clock w2 @ ''.txt'' \<mapsto> result),
                            io_log := io_log w2 @ [WriteNote (clock w2 @ ''.txt'')]\<rparr>"
  from a have up: "update_progress w1 topic = (Inr (), w2)"
    by (simp add: update_progress_step w2_def)
  from a have rd: "read_progress (progress_file w2) = Inr ?d"
    using update_progress_reload [of topic w1 data] up by simp
  from a up have run: "run_and_track w topic fn = (Inr (Some result, Some ?f), w3)"
    by (simp add: run_and_track_def save_note_eq w3_def) (simp add: w2_def)
  have "read_progress (progress_file w3) = Inr ?d" using rd by (simp add: w3_def)
  moreover have "dict_get ?d ?k 0 = dict_get data ?k 0 + 1" by (simp add: dict_get_set)
  moreover have nf: "note_files w3 = (note_files w1)(?f \<mapsto> result)"
    by (simp add: w3_def w2_def)
  moreover have "dom (note_files w3) - dom (note_files w1)
               = (if ?f \<in> dom (note_files w1) then {} else {?f})"
    unfolding nf by auto
  moreover have "io_log w3 = io_log w1 @ [ReadProgress, WriteProgress, WriteNote ?f]"
    by (simp add: w3_def w2_def)
  ultimately show "\<exists>w' data'. run_and_track w topic fn = (Inr (Some result, Some ?f), w')
           \<and> read_progress (progress_file w') = Inr data'
           \<and> dict_get data' ?k 0 = dict_get data ?k 0 + 1
           \<and> note_files w' = (note_files w1)(?f \<mapsto> result)
           \<and> dom (note_files w') - dom (note_files w1)
               = (if ?f \<in> dom (note_files w1) then {} else {?f})
           \<and> io_log w' = io_log w1 @ [ReadProgress, WriteProgress, WriteNote ?f]"
    using run by blast
next
  assume a: "fn w = (Inr (Some result), w1) \<and> is_api_error_text (Some result) = Inr False \<and> normalize_topic topic = []"
  then show "\<exists>w'. run_and_track w topic fn = (Inr (Some result, Some (clock w1 @ ''.txt'')), w')
           \<and> progress_file w' = progress_file w1
           \<and> note_files w' = (note_files w1)(clock w1 @ ''.txt'' \<mapsto> result)
           \<and> io_log w' = io_log w1 @ [WriteNote (clock w1 @ ''.txt'')]"
    by (simp add: run_and_track_def update_progress_blank save_note_eq)
qed

theorem run_and_track_effects_witness:
  "run_and_track world0 ''Logic'' (answers (Some ''Gemini API Error: 429 quota''))
     = (Inr (Some ''Gemini API Error: 429 quota'', None), world0)
   \<and> (\<exists>w' data'. run_and_track world0 ''Logic'' (answers (Some ''Sets are collections.''))
                    = (Inr (Some ''Sets are collections.'', Some ''20240101_120000.txt''), w')
         \<and> read_progress (progress_file w') = Inr data'
         \<and> dict_get data' ''logic'' 0 = 7
         \<and> note_files w' = [''20240101_120000.txt'' \<mapsto> ''Sets are collections.'']
         \<and> dom (note_files w') - dom (note_files world0) = {''20240101_120000.txt''}
         \<and> io_log w' = [ReadProgress, WriteProgress, WriteNote ''20240101_120000.txt''])
   \<and> (\<exists>w'. run_and_track world0 '' '' (answers (Some ''Sets are collections.''))
                    = (Inr (Some ''Sets are collections.'', Some ''20240101_120000.txt''), w')
         \<and> progress_file w' = progress_file world0
         \<and> note_files w' = [''20240101_120000.txt'' \<mapsto> ''Sets are collections.'']
         \<and> io_log w' = [WriteNote ''20240101_120000.txt''])"
proof -
  let ?data = "[(''linear algebra'', 5), (''logic'', 6), (''graphs'', 3), (''proofs'', 2)] :: int dict"
  have n: "normalize_topic ''Logic'' = ''logic''" "normalize_topic '' '' = []" by code_simp+
  have g: "dict_get ?data ''logic'' 0 = 6" by (simp add: dict_get_def)
  have f: "clock world0 = ''20240101_120000''" "note_files world0 = Map.empty" "io_log world0 = []"
    by (simp_all add: world0_def)
  have a: "run_and_track world0 ''Logic'' (answers (Some ''Gemini API Error: 429 quota''))
     = (Inr (Some ''Gemini API Error: 429 quota'', None), world0)"
    using run_and_track_effects [of "answers (Some ''Gemini API Error: 429 quota'')" world0
        "''Gemini API Error: 429 quota''" world0 "''Logic''"] failure_text
    by (simp add: answers_def)
  have b: "\<exists>w' data'. run_and_track world0 ''Logic'' (answers (Some ''Sets are collections.''))
                    = (Inr (Some ''Sets are collections.'', Some ''20240101_120000.txt''), w')
         \<and> read_progress (progress_file w') = Inr data'
         \<and> dict_get data' ''logic'' 0 = 7
         \<and> note_files w' = [''20240101_120000.txt'' \<mapsto> ''Sets are collections.'']
         \<and> dom (note_files w') - dom (note_files world0) = {''20240101_120000.txt''}
         \<and> io_log w' = [ReadProgress, WriteProgress, WriteNote ''20240101_120000.txt'']"
    using run_and_track_effects [of "answers (Some ''Sets are collections.'')" world0
        "''Sets are collections.''" world0 "''Logic''" ?data] not_failure_text w0_read
    unfolding n g f by (simp add: answers_def)
  have c: "\<exists>w'. run_and_track world0 '' '' (answers (Some ''Sets are collections.''))
                    = (Inr (Some ''Sets are collections.'', Some ''20240101_120000.txt''), w')
         \<and> progress_file w' = progress_file world0
         \<and> note_files w' = [''20240101_120000.txt'' \<mapsto> ''Sets are collections.'']
         \<and> io_log w' = [WriteNote ''20240101_120000.txt'']"
    using run_and_track_effects [of "answers (Some ''Sets are collections.'')" world0
        "''Sets are collections.''" world0 "'' ''"] not_failure_text
    unfolding n f by (simp add: answers_def)
  from a b c show ?thesis by blast
qed

text \<open>
  The claim as stated fails in three places: with a blank topic a successful result
  leaves every count as it was; with a note of the same timestamp in place no new file
  appears; and a result of \<open>None\<close>, which \<open>generate\<close> returns for a response
  whose first part has no text, is no failure string and yet makes \<open>run_and_track\<close>
  raise with nothing counted and nothing saved.
\<close>

theorem run_and_track_counterexample:
  "is_api_error_text (Some ''Sets are collections.'') = Inr False
   \<and> (\<exists>w'. run_and_track world0 '' '' (answers (Some ''Sets are collections.''))
               = (Inr (Some ''Sets are collections.'', Some ''20240101_120000.txt''), w')
         \<and> read_progress (progress_file w') = read_progress (progress_file world0))
   \<and> (\<exists>w'. run_and_track world1 ''Logic'' (answers (Some ''Sets are collections.''))
               = (Inr (Some ''Sets are collections.'', Some ''20240101_120000.txt''), w')
         \<and> dom (note_files w') = dom (note_files world1))
   \<and> generate client1 [''model-h''] (Prompt ''What is a set?'') = (None, [''model-h''])
   \<and> run_and_track world0 ''Logic'' (answers None)
         = (Inl (AttributeError none_has_no_startswith), world0)"
proof (intro conjI)
  show "is_api_error_text (Some ''Sets are collections.'') = Inr False" by (rule not_failure_text)
next
  show "generate client1 [''model-h''] (Prompt ''What is a set?'') = (None, [''model-h''])"
    by code_simp
next
  show "run_and_track world0 ''Logic'' (answers None)
         = (Inl (AttributeError none_has_no_startswith), world0)"
    by (simp add: run_and_track_none answers_def)
next
  have n: "normalize_topic '' '' = []" by code_simp
  have f: "clock world0 = ''20240101_120000''" by (simp add: world0_def)
  show "\<exists>w'. run_and_track world0 '' '' (answers (Some ''Sets are collections.''))
               = (Inr (Some ''Sets are collections.'', Some ''20240101_120000.txt''), w')
         \<and> read_progress (progress_file w') = read_progress (progress_file world0)"
    using not_failure_text n f
    by (simp add: run_and_track_def answers_def update_progress_blank save_note_eq)
next
  let ?data = "[(''linear algebra'', 5), (''logic'', 6), (''graphs'', 3), (''proofs'', 2)] :: int dict"
  have n: "normalize_topic ''Logic'' = ''logic''" by code_simp
  have r: "read_progress (progress_file world1) = Inr ?data"
    using w0_read by (simp add: world1_def)
  have f: "clock world1 = ''20240101_120000''"
    "note_files world1 = [''20240101_120000.txt'' \<mapsto> ''an older note'']"
    by (simp_all add: world1_def world0_def)
  have up: "update_progress world1 ''Logic''
     = (Inr (), world1\<lparr>progress_file := Inr (dump (dict_set ?data ''logic'' (dict_get ?data ''logic'' 0 + 1))),
                       io_log := io_log world1 @ [ReadProgress, WriteProgress]\<rparr>)"
    using update_progress_step [of "''Logic''" world1 ?data] n r by simp
  show "\<exists>w'. run_and_track world1 ''Logic'' (answers (Some ''Sets are collections.''))
               = (Inr (Some ''Sets are collections.'', Some ''20240101_120000.txt''), w')
         \<and> dom (note_files w') = dom (note_files world1)"
    using not_failure_text up f
    by (simp add: run_and_track_def answers_def save_note_eq)
qed

subsection \<open>C5: \<open>load_progress\<close> on a payload that is no dictionary\<close>

text \<open>
  A file that cannot be read or parsed loads as the empty dictionary. A file that holds
  an object loads with distinct, non-empty, normalized keys, each with the sum of the
  values that \<open>int\<close> accepts among the entries normalizing to it; the other entries
  are dropped.
\<close>

lemma read_progress_unreadable: "read_progress (Inl e) = Inr []"
  by (simp add: read_progress_def)

lemma load_loop_sums:
  "k \<noteq> [] \<Longrightarrow>
   map_of (load_loop acc kvs) k =
     (if contributions kvs k = [] then map_of acc k
      else Some (dict_get acc k 0 + sum_list (contributions kvs k)))"
proof (induction acc kvs rule: load_loop.induct)
  case (1 cleaned)
  then show ?case by simp
next
  case (2 cleaned key val rest)
  show ?case
  proof (cases "normalize_topic key = []")
    case True
    with 2 show ?thesis by auto
  next
    case False
    show ?thesis
    proof (cases "py_int val")
      case (Inl e)
      with 2 False show ?thesis by simp
    next
      case (Inr n)
      with 2 False show ?thesis
        by (auto simp: map_of_dict_set dict_get_set Let_def dict_get_def split: option.splits)
    qed
  qed
qed

lemma load_loop_blank: "map_of (load_loop acc kvs) [] = map_of acc []"
  by (induction acc kvs rule: load_loop.induct)
    (auto simp: Let_def map_of_dict_set split: sum.splits)

lemma read_progress_object:
  "\<exists>data. read_progress (Inr (JObj kvs)) = Inr data
     \<and> distinct (map fst data)
     \<and> list_all (\<lambda>k. k \<noteq> [] \<and> normalize_topic k = k) (map fst data)
     \<and> (\<forall>k. map_of data k =
            (if k = [] \<or> contributions kvs k = [] then None
             else Some (sum_list (contributions kvs k))))"
proof -
  have r: "read_progress (Inr (JObj kvs)) = Inr (load_loop [] kvs)"
    by (simp add: read_progress_def)
  then have g: "good_dict (load_loop [] kvs)" by (rule read_progress_good)
  have "map_of (load_loop [] kvs) k =
            (if k = [] \<or> contributions kvs k = [] then None
             else Some (sum_list (contributions kvs k)))" for k
    using load_loop_sums [of k "[]" kvs] load_loop_blank [of "[]" kvs]
    by (cases "k = []") (simp_all add: dict_get_def)
  with r g show ?thesis
    by (auto simp: good_dict_def good_key_def list_all_iff)
qed

text \<open>
  C5. \<open>load_progress\<close> is meant never to fail, and the \<open>try\<close> around the read
  covers a file that cannot be read or parsed. A file that holds valid JSON other than an
  object, here the empty array, passes the \<open>try\<close> and makes \<open>raw.items()\<close> raise
  \<open>AttributeError\<close>.
\<close>

theorem load_progress_raises_on_list:
  "load_progress (world0\<lparr>progress_file := Inr (JArr [])\<rparr>)
     = (Inl (AttributeError (sq @ ''list'' @ sq @ '' object has no attribute '' @ sq @ ''items'' @ sq)),
        world0\<lparr>progress_file := Inr (JArr []), io_log := [ReadProgress]\<rparr>)"
  by (simp add: load_progress_def read_progress_def world0_def)

subsection \<open>C9: \<open>_extract_text\<close> can return \<open>None\<close>\<close>

lemma extract_text_Inr: "\<exists>v. extract_text r = Inr v"
  by (simp add: extract_text_def split: sum.splits)

lemma deep_text_no_part: "first_part r = None \<Longrightarrow> \<exists>e. deep_text r = Inl e"
  by (auto simp: deep_text_def first_part_def split: attr.splits list.splits)

lemma deep_text_part:
  "first_part r = Some p \<Longrightarrow>
   deep_text r =
     (case part_text p of
        Absent \<Rightarrow> Inl (no_attribute ''text'')
      | Null \<Rightarrow> Inr None
      | Val s \<Rightarrow> Inr (Some s))"
  by (auto simp: deep_text_def first_part_def split: attr.splits list.splits)

text \<open>
  What \<open>_extract_text\<close> returns, case by case: it returns on every response; the
  response's own text when that attribute is present and not empty; otherwise the
  \<open>text\<close> attribute of the first content part of the first candidate when the path
  to it exists and the part has the attribute, also when it is \<open>None\<close>; otherwise
  \<open>str(response)\<close>.
\<close>

lemma extract_text_cases:
  "(\<exists>v. extract_text r = Inr v)
   \<and> (\<forall>s. resp_text r = Val s \<and> s \<noteq> [] \<longrightarrow> extract_text r = Inr (Some s))
   \<and> (\<not> populated (resp_text r) \<longrightarrow>
        extract_text r =
          Inr (case first_part r of
                 None \<Rightarrow> Some (resp_str r)
               | Some p \<Rightarrow>
                   (case part_text p of
                      Absent \<Rightarrow> Some (resp_str r)
                    | Null \<Rightarrow> None
                    | Val s \<Rightarrow> Some s)))
   \<and> (populated (resp_text r) \<longleftrightarrow> (\<exists>s. resp_text r = Val s \<and> s \<noteq> []))"
proof (intro conjI allI impI)
  show "\<exists>v. extract_text r = Inr v" by (rule extract_text_Inr)
next
  fix s assume "resp_text r = Val s \<and> s \<noteq> []"
  then show "extract_text r = Inr (Some s)"
    by (simp add: extract_text_def populated_def attr_value_def)
next
  assume "\<not> populated (resp_text r)"
  then show "extract_text r =
          Inr (case first_part r of
                 None \<Rightarrow> Some (resp_str r)
               | Some p \<Rightarrow>
                   (case part_text p of
                      Absent \<Rightarrow> Some (resp_str r)
                    | Null \<Rightarrow> None
                    | Val s \<Rightarrow> Some s))"
  proof (cases "first_part r")
    case None
    with \<open>\<not> populated (resp_text r)\<close> deep_text_no_part [OF None] show ?thesis
      by (auto simp: extract_text_def)
  next
    case (Some p)
    with \<open>\<not> populated (resp_text r)\<close> deep_text_part [OF Some] show ?thesis
      by (simp add: extract_text_def split: attr.splits)
  qed
next
  show "populated (resp_text r) \<longleftrightarrow> (\<exists>s. resp_text r = Val s \<and> s \<noteq> [])"
    by (simp add: populated_def split: attr.splits)
qed

lemma extract_text_examples:
  "extract_text response1 = Inr (Some ''direct'')
   \<and> extract_text response2 = Inr (Some ''deep'')
   \<and> extract_text response3 = Inr (Some ''<response>'')"
  by (simp add: extract_text_def deep_text_def populated_def attr_value_def
      response1_def response2_def response3_def index_out_of_range_def)

lemma extract_text_none:
  "\<not> populated (resp_text r) \<Longrightarrow> first_part r = Some p \<Longrightarrow> part_text p = Null \<Longrightarrow>
   extract_text r = Inr None"
  using extract_text_cases [of r] by simp

text \<open>
  C9. The claim promises the response's text, else the text extracted from the first
  part, else the string representation, and the function is declared to return a
  string. On a response without a text of its own whose first part has \<open>None\<close> for
  its text, it returns \<open>None\<close>: the deep path hands on what it reads without the check
  that the direct path makes, and since nothing raises, the fallback to
  \<open>str(response)\<close> is not taken. \<open>generate\<close> then returns \<open>None\<close> as well.
\<close>

theorem extract_text_returns_none:
  "extract_text (Response Absent (Val [Candidate (Val (Content (Val [Part Null])))]) ''<response>'')
     = Inr None
   \<and> extract_text (Response Null (Val [Candidate (Val (Content (Val [Part Null, Part (Val ''later'')])))])
                    ''<response>'')
     = Inr None
   \<and> extract_text (Response (Val []) (Val [Candidate (Val (Content (Val [Part Null])))]) ''<response>'')
     = Inr None
   \<and> extract_text response4 = Inr None
   \<and> fst (generate client1 [''model-h''] (Prompt ''What is a set?'')) = None"
proof (intro conjI)
  show "fst (generate client1 [''model-h''] (Prompt ''What is a set?'')) = None"
    by code_simp
qed (simp_all add: extract_text_def deep_text_def populated_def response4_def)

subsection \<open>C6: the error classification\<close>

lemma is_in_sublist: "is_in sub s = sublist sub s"
  by (induction s) (simp_all add: sublist_Cons_right)

lemma has_examples:
  "has ''Error 404: models/x is NOT_FOUND'' ''404''" "has ''Error 404: models/x is NOT_FOUND'' ''not_found''"
  "is_not_found ''Error 404: models/x is NOT_FOUND''"
  "\<not> is_not_found ''429 Resource_Exhausted''" "has ''429 Resource_Exhausted'' ''resource_exhausted''"
  "\<not> is_not_found ''Invalid API key''" "\<not> has ''Invalid API key'' ''429''"
  "\<not> has ''Invalid API key'' ''resource_exhausted''" "has ''Invalid API key'' ''invalid api key''"
  "\<not> is_not_found ''connection reset''" "\<not> has ''connection reset'' ''429''"
  "\<not> has ''connection reset'' ''resource_exhausted''" "\<not> has ''connection reset'' ''401''"
  "\<not> has ''connection reset'' ''unauthenticated''" "\<not> has ''connection reset'' ''invalid api key''"
  "\<not> has ''connection reset'' ''403''" "\<not> has ''connection reset'' ''permission_denied''"
  "\<not> has ''connection reset'' ''deadline_exceeded''" "\<not> has ''connection reset'' ''timed out''"
  "\<not> has ''connection reset'' ''timeout''"
  by code_simp+

text \<open>
  C6, as the code has it. \<open>_classify_error\<close> returns one of six tags, the first that
  applies in this order: \<open>NOT_FOUND\<close> when the lower-cased message contains \<open>404\<close>
  and one of \<open>not_found\<close>, \<open>not found\<close>; \<open>QUOTA_EXHAUSTED\<close> on \<open>429\<close> or
  \<open>resource_exhausted\<close>; \<open>AUTH\<close> on \<open>401\<close>, \<open>unauthenticated\<close> or
  \<open>invalid api key\<close>; \<open>PERMISSION\<close> on \<open>403\<close> or \<open>permission_denied\<close>;
  \<open>TIMEOUT\<close> on \<open>deadline_exceeded\<close>, \<open>timed out\<close> or \<open>timeout\<close>; and
  \<open>ERROR\<close> otherwise. Messages that agree up to letter case get the same tag.
\<close>

theorem classify_error_cases:
  "classify_error err \<in> set [''NOT_FOUND'', ''QUOTA_EXHAUSTED'', ''AUTH'', ''PERMISSION'', ''TIMEOUT'', ''ERROR'']
   \<and> (classify_error err = ''NOT_FOUND'' \<longleftrightarrow>
        has err ''404'' \<and> (has err ''not_found'' \<or> has err ''not found''))
   \<and> (classify_error err = ''QUOTA_EXHAUSTED'' \<longleftrightarrow>
        \<not> is_not_found err \<and> (has err ''429'' \<or> has err ''resource_exhausted''))
   \<and> (classify_error err = ''AUTH'' \<longleftrightarrow>
        \<not> is_not_found err \<and> \<not> (has err ''429'' \<or> has err ''resource_exhausted'')
        \<and> (has err ''401'' \<or> has err ''unauthenticated'' \<or> has err ''invalid api key''))
   \<and> (classify_error err = ''PERMISSION'' \<longleftrightarrow>
        \<not> is_not_found err \<and> \<not> (has err ''429'' \<or> has err ''resource_exhausted'')
        \<and> \<not> (has err ''401'' \<or> has err ''unauthenticated'' \<or> has err ''invalid api key'')
        \<and> (has err ''403'' \<or> has err ''permission_denied''))
   \<and> (classify_error err = ''TIMEOUT'' \<longleftrightarrow>
        \<not> is_not_found err \<and> \<not> (has err ''429'' \<or> has err ''resource_exhausted'')
        \<and> \<not> (has err ''401'' \<or> has err ''unauthenticated'' \<or> has err ''invalid api key'')
        \<and> \<not> (has err ''403'' \<or> has err ''permission_denied'')
        \<and> (has err ''deadline_exceeded'' \<or> has err ''timed out'' \<or> has err ''timeout''))
   \<and> (classify_error err = ''ERROR'' \<longleftrightarrow>
        \<not> is_not_found err \<and> \<not> (has err ''429'' \<or> has err ''resource_exhausted'')
        \<and> \<not> (has err ''401'' \<or> has err ''unauthenticated'' \<or> has err ''invalid api key'')
        \<and> \<not> (has err ''403'' \<or> has err ''permission_denied'')
        \<and> \<not> (has err ''deadline_exceeded'' \<or> has err ''timed out'' \<or> has err ''timeout''))
   \<and> (is_not_found err \<longleftrightarrow> has err ''404'' \<and> (has err ''not_found'' \<or> has err ''not found''))
   \<and> (\<forall>pat. has err pat \<longleftrightarrow> sublist pat (lower err))
   \<and> (\<forall>err'. lower err' = lower err \<longrightarrow> classify_error err' = classify_error err)"
proof -
  have nf: "is_not_found err \<longleftrightarrow> has err ''404'' \<and> (has err ''not_found'' \<or> has err ''not found'')"
    by (simp add: is_not_found_def has_def Let_def)
  have ci: "classify_error err' = classify_error err" if "lower err' = lower err" for err'
    using that by (simp add: classify_error_def is_not_found_def Let_def)
  have sub: "has err pat \<longleftrightarrow> sublist pat (lower err)" for pat
    by (simp add: has_def is_in_sublist)
  have cases: "classify_error err =
      (if is_not_found err then ''NOT_FOUND''
       else if has err ''429'' \<or> has err ''resource_exhausted'' then ''QUOTA_EXHAUSTED''
       else if has err ''401'' \<or> has err ''unauthenticated'' \<or> has err ''invalid api key'' then ''AUTH''
       else if has err ''403'' \<or> has err ''permission_denied'' then ''PERMISSION''
       else if has err ''deadline_exceeded'' \<or> has err ''timed out'' \<or> has err ''timeout'' then ''TIMEOUT''
       else ''ERROR'')"
    by (simp add: classify_error_def has_def Let_def)
  have tags: "classify_error err \<in> set [''NOT_FOUND'', ''QUOTA_EXHAUSTED'', ''AUTH'', ''PERMISSION'', ''TIMEOUT'', ''ERROR'']"
    unfolding cases by simp
  have iffs:
    "classify_error err = ''NOT_FOUND'' \<longleftrightarrow>
        has err ''404'' \<and> (has err ''not_found'' \<or> has err ''not found'')"
    "classify_error err = ''QUOTA_EXHAUSTED'' \<longleftrightarrow>
        \<not> is_not_found err \<and> (has err ''429'' \<or> has err ''resource_exhausted'')"
    "classify_error err = ''AUTH'' \<longleftrightarrow>
        \<not> is_not_found err \<and> \<not> (has err ''429'' \<or> has err ''resource_exhausted'')
        \<and> (has err ''401'' \<or> has err ''unauthenticated'' \<or> has err ''invalid api key'')"
    "classify_error err = ''PERMISSION'' \<longleftrightarrow>
        \<not> is_not_found err \<and> \<not> (has err ''429'' \<or> has err ''resource_exhausted'')
        \<and> \<not> (has err ''401'' \<or> has err ''unauthenticated'' \<or> has err ''invalid api key'')
        \<and> (has err ''403'' \<or> has err ''permission_denied'')"
    "classify_error err = ''TIMEOUT'' \<longleftrightarrow>
        \<not> is_not_found err \<and> \<not> (has err ''429'' \<or> has err ''resource_exhausted'')
        \<and> \<not> (has err ''401'' \<or> has err ''unauthenticated'' \<or> has err ''invalid api key'')
        \<and> \<not> (has err ''403'' \<or> has err ''permission_denied'')
        \<and> (has err ''deadline_exceeded'' \<or> has err ''timed out'' \<or> has err ''timeout'')"
    "classify_error err = ''ERROR'' \<longleftrightarrow>
        \<not> is_not_found err \<and> \<not> (has err ''429'' \<or> has err ''resource_exhausted'')
        \<and> \<not> (has err ''401'' \<or> has err ''unauthenticated'' \<or> has err ''invalid api key'')
        \<and> \<not> (has err ''403'' \<or> has err ''permission_denied'')
        \<and> \<not> (has err ''deadline_exceeded'' \<or> has err ''timed out'' \<or> has err ''timeout'')"
    unfolding cases nf [symmetric] by simp_all
  from tags iffs nf sub ci show ?thesis by blast
qed

theorem classify_error_cases_witness:
  "classify_error ''Error 404: models/x is NOT_FOUND'' = ''NOT_FOUND''
   \<and> classify_error ''429 Resource_Exhausted'' = ''QUOTA_EXHAUSTED''
   \<and> classify_error ''Invalid API key'' = ''AUTH''
   \<and> classify_error ''connection reset'' = ''ERROR''"
proof (intro conjI)
  show "classify_error ''Error 404: models/x is NOT_FOUND'' = ''NOT_FOUND''"
    by (rule classify_error_cases [THEN conjunct2, THEN conjunct1, THEN iffD2])
      (simp add: has_examples)
  show "classify_error ''429 Resource_Exhausted'' = ''QUOTA_EXHAUSTED''"
    by (rule classify_error_cases [THEN conjunct2, THEN conjunct2, THEN conjunct1, THEN iffD2])
      (simp add: has_examples)
  show "classify_error ''Invalid API key'' = ''AUTH''"
    by (rule classify_error_cases
        [THEN conjunct2, THEN conjunct2, THEN conjunct2, THEN conjunct1, THEN iffD2])
      (simp add: has_examples)
  show "classify_error ''connection reset'' = ''ERROR''"
    by (rule classify_error_cases
        [THEN conjunct2, THEN conjunct2, THEN conjunct2, THEN conjunct2, THEN conjunct2,
         THEN conjunct2, THEN conjunct1, THEN iffD2])
      (simp add: has_examples)
qed

text \<open>
  The claim as stated sends every message without one of its listed patterns to
  \<open>ERROR\<close>; the code has one more pattern for \<open>AUTH\<close>.
\<close>

theorem classify_error_counterexample:
  "classify_error ''Invalid API key'' = ''AUTH''
   \<and> \<not> has ''Invalid API key'' ''404'' \<and> \<not> has ''Invalid API key'' ''429''
   \<and> \<not> has ''Invalid API key'' ''resource_exhausted''
   \<and> \<not> has ''Invalid API key'' ''401'' \<and> \<not> has ''Invalid API key'' ''unauthenticated''
   \<and> \<not> has ''Invalid API key'' ''403'' \<and> \<not> has ''Invalid API key'' ''permission_denied''
   \<and> \<not> has ''Invalid API key'' ''deadline_exceeded'' \<and> \<not> has ''Invalid API key'' ''timeout''
   \<and> \<not> has ''Invalid API key'' ''timed out''"
  by code_simp

subsection \<open>C1: the fallback chain of \<open>generate\<close>\<close>

lemma generate_loop_not_found_step:
  "fails_not_found cl cts m \<Longrightarrow>
   generate_loop cl cts le (m # ms) =
     (fst (generate_loop cl cts (m @ '': '' @ error_of cl cts m) ms),
      m # snd (generate_loop cl cts (m @ '': '' @ error_of cl cts m) ms))"
  by (auto simp: fails_not_found_def error_of_def split: outcome.splits prod.splits)

lemma generate_loop_returns:
  "cl m cts = Returns r \<Longrightarrow> extract_text r = Inr v \<Longrightarrow>
   generate_loop cl cts le (m # ms) = (v, [m])"
  by simp

lemma generate_loop_raises:
  "cl m cts = Raises e \<Longrightarrow> \<not> is_not_found e \<Longrightarrow>
   generate_loop cl cts le (m # ms) = (Some (''Gemini API Error: '' @ e), [m])"
  by simp

lemma generate_loop_skip:
  "list_all (fails_not_found cl cts) pre \<Longrightarrow> rest \<noteq> [] \<Longrightarrow>
   generate_loop cl cts le (pre @ rest) =
     (fst (generate_loop cl cts (if pre = [] then le else last pre @ '': '' @ error_of cl cts (last pre)) rest),
      pre @ snd (generate_loop cl cts (if pre = [] then le else last pre @ '': '' @ error_of cl cts (last pre)) rest))"
proof (induction pre arbitrary: le)
  case Nil
  then show ?case by simp
next
  case (Cons m pre)
  then have m: "fails_not_found cl cts m" and pre: "list_all (fails_not_found cl cts) pre" by simp_all
  show ?case
    using Cons.IH [OF pre Cons.prems(2), of "m @ '': '' @ error_of cl cts m"]
    by (simp add: generate_loop_not_found_step [OF m] del: generate_loop.simps)
qed

lemma generate_loop_exhausted:
  "list_all (fails_not_found cl cts) ms \<Longrightarrow>
   generate_loop cl cts le ms =
     (Some (''Gemini API Error: all candidate models failed. Last error: ''
            @ (if ms = [] then le else last ms @ '': '' @ error_of cl cts (last ms))), ms)"
proof (induction ms arbitrary: le)
  case Nil
  then show ?case by simp
next
  case (Cons m ms)
  then have m: "fails_not_found cl cts m" and ms: "list_all (fails_not_found cl cts) ms" by simp_all
  show ?case
    using Cons.IH [OF ms, of "m @ '': '' @ error_of cl cts m"]
    by (simp add: generate_loop_not_found_step [OF m] del: generate_loop.simps)
qed

lemma client1_facts:
  "fails_not_found client1 cts ''model-a''" "fails_not_found client1 cts ''model-d''"
  "client1 ''model-b'' cts = Returns response1"
  "client1 ''model-c'' cts = Raises ''504 DEADLINE_EXCEEDED''"
  "\<not> is_not_found ''504 DEADLINE_EXCEEDED''"
  "error_of client1 cts ''model-d'' = ''Error 404: model not found''"
  by code_simp+

text \<open>
  C1. \<open>generate\<close> calls the candidates in list order. When the candidates before
  \<open>m\<close> all fail with a not-found error and the call for \<open>m\<close> returns a response,
  the result is the text extracted from it and the calls made are those up to \<open>m\<close>.
  When the call for \<open>m\<close> fails with any other error, the result is
  \<open>Gemini API Error:\<close>, a blank and the error text, again with no call after \<open>m\<close>.
  When every candidate fails with a not-found error, the result is the exhaustion
  message ending in the last candidate's name and error.
\<close>

theorem generate_fallback:
  "(list_all (fails_not_found cl cts) pre \<and> cl m cts = Returns r \<longrightarrow>
      (\<exists>v. extract_text r = Inr v \<and> generate cl (pre @ m # post) cts = (v, pre @ [m])))
   \<and> (list_all (fails_not_found cl cts) pre \<and> cl m cts = Raises e \<and> \<not> is_not_found e \<longrightarrow>
      generate cl (pre @ m # post) cts = (Some (''Gemini API Error: '' @ e), pre @ [m]))
   \<and> (list_all (fails_not_found cl cts) ms \<longrightarrow>
      generate cl ms cts =
        (Some (''Gemini API Error: all candidate models failed. Last error: ''
               @ (if ms = [] then [] else last ms @ '': '' @ error_of cl cts (last ms))), ms))
   \<and> (fails_not_found cl cts m \<longleftrightarrow> (\<exists>e. cl m cts = Raises e \<and> is_not_found e))"
proof (intro conjI impI)
  assume a: "list_all (fails_not_found cl cts) pre \<and> cl m cts = Returns r"
  obtain v where v: "extract_text r = Inr v" using extract_text_Inr by blast
  with a have "generate cl (pre @ m # post) cts = (v, pre @ [m])"
    unfolding generate_def
    by (subst generate_loop_skip) (simp_all add: generate_loop_returns del: generate_loop.simps)
  with v show "\<exists>v. extract_text r = Inr v \<and> generate cl (pre @ m # post) cts = (v, pre @ [m])"
    by blast
next
  assume a: "list_all (fails_not_found cl cts) pre \<and> cl m cts = Raises e \<and> \<not> is_not_found e"
  then show "generate cl (pre @ m # post) cts = (Some (''Gemini API Error: '' @ e), pre @ [m])"
    unfolding generate_def
    by (subst generate_loop_skip) (simp_all add: generate_loop_raises del: generate_loop.simps)
next
  assume "list_all (fails_not_found cl cts) ms"
  then show "generate cl ms cts =
        (Some (''Gemini API Error: all candidate models failed. Last error: ''
               @ (if ms = [] then [] else last ms @ '': '' @ error_of cl cts (last ms))), ms)"
    unfolding generate_def by (rule generate_loop_exhausted)
next
  show "fails_not_found cl cts m \<longleftrightarrow> (\<exists>e. cl m cts = Raises e \<and> is_not_found e)"
    by (simp add: fails_not_found_def split: outcome.splits)
qed

theorem generate_fallback_witness:
  "generate client1 [''model-a'', ''model-b'', ''model-c''] (Prompt ''What is a set?'')
     = (Some ''direct'', [''model-a'', ''model-b''])
   \<and> generate client1 [''model-a'', ''model-d'', ''model-c'', ''model-b''] (Prompt ''What is a set?'')
     = (Some ''Gemini API Error: 504 DEADLINE_EXCEEDED'', [''model-a'', ''model-d'', ''model-c''])
   \<and> generate client1 [''model-a'', ''model-d''] (Prompt ''What is a set?'')
     = (Some ''Gemini API Error: all candidate models failed. Last error: model-d: Error 404: model not found'',
        [''model-a'', ''model-d''])"
proof -
  let ?c = "Prompt ''What is a set?''"
  have x: "extract_text response1 = Inr (Some ''direct'')"
    by (simp add: extract_text_def populated_def attr_value_def response1_def)
  have a: "generate client1 [''model-a'', ''model-b'', ''model-c''] ?c
     = (Some ''direct'', [''model-a'', ''model-b''])"
    using generate_fallback [of client1 ?c "[''model-a'']" "''model-b''" response1 "[''model-c'']"]
      client1_facts x by simp
  have b: "generate client1 [''model-a'', ''model-d'', ''model-c'', ''model-b''] ?c
     = (Some ''Gemini API Error: 504 DEADLINE_EXCEEDED'', [''model-a'', ''model-d'', ''model-c''])"
    using generate_fallback [of client1 ?c "[''model-a'', ''model-d'']" "''model-c''" _ "[''model-b'']"
        "''504 DEADLINE_EXCEEDED''"]
      client1_facts by simp
  have c: "generate client1 [''model-a'', ''model-d''] ?c
     = (Some ''Gemini API Error: all candidate models failed. Last error: model-d: Error 404: model not found'',
        [''model-a'', ''model-d''])"
    using generate_fallback [of client1 ?c _ _ _ _ _ "[''model-a'', ''model-d'']"]
      client1_facts by simp
  from a b c show ?thesis by blast
qed

subsection \<open>C7: the verdict of \<open>check_access\<close>\<close>

lemma classify_error_tag: "classify_error e \<in> set tags"
  by (simp add: classify_error_def tags_def Let_def)

lemma classify_error_not_ok: "classify_error e \<noteq> ''OK''"
  by (simp add: classify_error_def Let_def)

lemma probe_tag_tag: "probe_tag cl m \<in> set tags"
  using classify_error_tag
  by (auto simp: probe_tag_def tags_def split: outcome.splits sum.splits option.splits)

lemma dict_item_present:
  "k \<in> set (map fst d) \<Longrightarrow> dict_item d k = Inr (dict_get d k dflt)"
  by (auto simp: dict_item_def dict_get_def map_of_eq_None_iff split: option.splits)

lemma dict_incr_present:
  "k \<in> set (map fst d) \<Longrightarrow> dict_incr d k = Inr (dict_set d k (dict_get d k 0 + 1))"
  by (simp add: dict_incr_def dict_item_present [of k d 0])

lemma keys_dict_set: "k \<in> set (map fst d) \<Longrightarrow> map fst (dict_set d k v) = map fst d"
  by (simp add: dict_set_def update_keys)

lemma check_failed_present:
  "map fst st = tags \<Longrightarrow>
   check_failed st ls m e =
     Inr (dict_set st (classify_error e) (dict_get st (classify_error e) 0 + 1),
          ls @ [''['' @ classify_error e @ ''] '' @ m @ '' -> '' @ take 180 e])"
  using classify_error_tag [of e] by (simp add: check_failed_def Let_def dict_incr_present)

lemma check_one_present:
  assumes "map fst st = tags"
  shows "check_one cl st ls m =
     Inr (dict_set st (probe_tag cl m) (dict_get st (probe_tag cl m) 0 + 1), ls @ [probe_line cl m])"
proof -
  have ok: "''OK'' \<in> set (map fst st)" using assms by (simp add: tags_def)
  show ?thesis
    unfolding check_one_def probe_tag_def probe_line_def
    by (simp add: check_failed_present [OF assms] dict_incr_present [OF ok] Let_def
        split: outcome.splits sum.splits option.splits)
qed

lemma check_loop_tally:
  "map fst st = tags \<Longrightarrow>
   \<exists>st' ls'. check_loop cl st ls ms = Inr (st', ls')
      \<and> map fst st' = tags
      \<and> ls' = ls @ map (probe_line cl) ms
      \<and> (\<forall>t. dict_get st' t 0 = dict_get st t 0 + tally cl ms t)"
proof (induction ms arbitrary: st ls)
  case Nil
  then show ?case by (simp add: tally_def)
next
  case (Cons m ms)
  let ?st = "dict_set st (probe_tag cl m) (dict_get st (probe_tag cl m) 0 + 1)"
  have "probe_tag cl m \<in> set (map fst st)" using Cons.prems probe_tag_tag by simp
  then have k: "map fst ?st = tags" using Cons.prems by (simp add: keys_dict_set)
  from Cons.IH [OF k, of "ls @ [probe_line cl m]"]
  obtain st' ls' where r: "check_loop cl ?st (ls @ [probe_line cl m]) ms = Inr (st', ls')"
    "map fst st' = tags" "ls' = (ls @ [probe_line cl m]) @ map (probe_line cl) ms"
    "\<forall>t. dict_get st' t 0 = dict_get ?st t 0 + tally cl ms t" by blast
  have "dict_get st' t 0 = dict_get st t 0 + tally cl (m # ms) t" for t
    using r(4) by (simp add: dict_get_set tally_def)
  with r(1-3) show ?case by (simp add: check_one_present [OF Cons.prems])
qed

lemma verdict_present:
  assumes "map fst st = tags"
  shows "verdict st n =
     Inr (if dict_get st ''OK'' 0 > 0
            then ''Result: Gemini is reachable. At least one configured model works.''
          else if dict_get st ''AUTH'' 0 > 0
            then ''Blocked by authentication. Check GOOGLE_API_KEY.''
          else if dict_get st ''PERMISSION'' 0 > 0
            then ''Blocked by project/API permissions for this key.''
          else if dict_get st ''QUOTA_EXHAUSTED'' 0 > 0
            then ''Blocked by quota/billing limits on this project.''
          else if dict_get st ''NOT_FOUND'' 0 = int n
            then ''Blocked by model names. None of the configured models are available.''
          else ''Blocked by API/network/runtime errors. See per-model details above.'')"
proof -
  have i: "dict_item st ''OK'' = Inr (dict_get st ''OK'' 0)"
    "dict_item st ''AUTH'' = Inr (dict_get st ''AUTH'' 0)"
    "dict_item st ''PERMISSION'' = Inr (dict_get st ''PERMISSION'' 0)"
    "dict_item st ''QUOTA_EXHAUSTED'' = Inr (dict_get st ''QUOTA_EXHAUSTED'' 0)"
    "dict_item st ''NOT_FOUND'' = Inr (dict_get st ''NOT_FOUND'' 0)"
    using assms by (simp_all add: dict_item_present tags_def)
  show ?thesis unfolding verdict_def i by simp
qed

lemma tally_pos: "tally cl ms t > 0 \<longleftrightarrow> list_ex (\<lambda>m. probe_tag cl m = t) ms"
  by (auto simp: tally_def list_ex_iff filter_empty_conv)

lemma length_filter_all: "length (filter P xs) = length xs \<longleftrightarrow> list_all P xs"
proof (induction xs)
  case Nil
  then show ?case by simp
next
  case (Cons x xs)
  have le: "length (filter P xs) \<le> length xs" by (rule length_filter_le)
  show ?case
  proof (cases "P x")
    case True
    with Cons show ?thesis by simp
  next
    case False
    from le have "length (filter P xs) \<noteq> Suc (length xs)" by linarith
    with False show ?thesis by simp
  qed
qed

lemma tally_all: "tally cl ms t = int (length ms) \<longleftrightarrow> list_all (\<lambda>m. probe_tag cl m = t) ms"
  by (simp add: tally_def length_filter_all)

lemma statuses0_zero: "dict_get statuses0 t 0 = 0"
  by (simp add: statuses0_def dict_get_def)

lemma client1_tags:
  "probe_tag client1 ''model-a'' = ''NOT_FOUND''" "probe_tag client1 ''model-b'' = ''OK''"
  "probe_tag client1 ''model-c'' = ''TIMEOUT''" "probe_tag client1 ''model-d'' = ''NOT_FOUND''"
  "probe_tag client1 ''model-e'' = ''AUTH''" "probe_tag client1 ''model-f'' = ''PERMISSION''"
  "probe_tag client1 ''model-g'' = ''QUOTA_EXHAUSTED''" "probe_tag client1 ''model-h'' = ''ERROR''"
  by code_simp+

text \<open>
  C7. \<open>check_access\<close> never raises. Its loop counts, for every tag, the models that
  got it, and the last line of the report is the first of these that applies:
  reachable when some model is tagged \<open>OK\<close>, else blocked by authentication when some
  model is tagged \<open>AUTH\<close>, else by permissions on \<open>PERMISSION\<close>, else by quota on
  \<open>QUOTA_EXHAUSTED\<close>, else by model names when every model is tagged
  \<open>NOT_FOUND\<close>, else by API, network or runtime errors. A model is tagged \<open>OK\<close>
  exactly when its call returns a response whose extracted text is a string.
\<close>

theorem check_access_verdict:
  "\<exists>statuses lines.
       check_loop cl statuses0 [''Gemini access check'', replicate 40 CHR ''-''] ms
         = Inr (statuses, [''Gemini access check'', replicate 40 CHR ''-''] @ map (probe_line cl) ms)
     \<and> (\<forall>t. dict_get statuses t 0 = tally cl ms t)
     \<and> check_access_lines cl ms = Inr lines
     \<and> check_access cl ms = Inr (join [CHR 0x0A] lines)
     \<and> lines = [''Gemini access check'', replicate 40 CHR ''-''] @ map (probe_line cl) ms
               @ [replicate 40 CHR ''-'', summary statuses,
                  if list_ex (\<lambda>m. probe_tag cl m = ''OK'') ms
                    then ''Result: Gemini is reachable. At least one configured model works.''
                  else if list_ex (\<lambda>m. probe_tag cl m = ''AUTH'') ms
                    then ''Blocked by authentication. Check GOOGLE_API_KEY.''
                  else if list_ex (\<lambda>m. probe_tag cl m = ''PERMISSION'') ms
                    then ''Blocked by project/API permissions for this key.''
                  else if list_ex (\<lambda>m. probe_tag cl m = ''QUOTA_EXHAUSTED'') ms
                    then ''Blocked by quota/billing limits on this project.''
                  else if list_all (\<lambda>m. probe_tag cl m = ''NOT_FOUND'') ms
                    then ''Blocked by model names. None of the configured models are available.''
                  else ''Blocked by API/network/runtime errors. See per-model details above.'']
     \<and> (\<forall>m. probe_tag cl m = ''OK'' \<longleftrightarrow>
              (\<exists>r t. cl m probe_prompt = Returns r \<and> extract_text r = Inr (Some t)))
     \<and> (\<forall>m e. cl m probe_prompt = Raises e \<longrightarrow> probe_tag cl m = classify_error e)"
proof -
  have k: "map fst statuses0 = tags" by (simp add: statuses0_def tags_def)
  from check_loop_tally [OF k, of cl "[''Gemini access check'', replicate 40 CHR ''-'']" ms]
  obtain st where r:
    "check_loop cl statuses0 [''Gemini access check'', replicate 40 CHR ''-''] ms
       = Inr (st, [''Gemini access check'', replicate 40 CHR ''-''] @ map (probe_line cl) ms)"
    "map fst st = tags" "\<forall>t. dict_get st t 0 = tally cl ms t"
    by (auto simp: statuses0_zero)
  define lines where "lines = [''Gemini access check'', replicate 40 CHR ''-''] @ map (probe_line cl) ms
               @ [replicate 40 CHR ''-'', summary st,
                  if list_ex (\<lambda>m. probe_tag cl m = ''OK'') ms
                    then ''Result: Gemini is reachable. At least one configured model works.''
                  else if list_ex (\<lambda>m. probe_tag cl m = ''AUTH'') ms
                    then ''Blocked by authentication. Check GOOGLE_API_KEY.''
                  else if list_ex (\<lambda>m. probe_tag cl m = ''PERMISSION'') ms
                    then ''Blocked by project/API permissions for this key.''
                  else if list_ex (\<lambda>m. probe_tag cl m = ''QUOTA_EXHAUSTED'') ms
                    then ''Blocked by quota/billing limits on this project.''
                  else if list_all (\<lambda>m. probe_tag cl m = ''NOT_FOUND'') ms
                    then ''Blocked by model names. None of the configured models are available.''
                  else ''Blocked by API/network/runtime errors. See per-model details above.'']"
  have v: "verdict st (length ms) =
     Inr (if list_ex (\<lambda>m. probe_tag cl m = ''OK'') ms
                    then ''Result: Gemini is reachable. At least one configured model works.''
                  else if list_ex (\<lambda>m. probe_tag cl m = ''AUTH'') ms
                    then ''Blocked by authentication. Check GOOGLE_API_KEY.''
                  else if list_ex (\<lambda>m. probe_tag cl m = ''PERMISSION'') ms
                    then ''Blocked by project/API permissions for this key.''
                  else if list_ex (\<lambda>m. probe_tag cl m = ''QUOTA_EXHAUSTED'') ms
                    then ''Blocked by quota/billing limits on this project.''
                  else if list_all (\<lambda>m. probe_tag cl m = ''NOT_FOUND'') ms
                    then ''Blocked by model names. None of the configured models are available.''
                  else ''Blocked by API/network/runtime errors. See per-model details above.'')"
    unfolding verdict_present [OF r(2)] using r(3) by (simp only: tally_pos tally_all)
  have l: "check_access_lines cl ms = Inr lines"
    unfolding lines_def
    by (simp only: check_access_lines_def r(1) v sum.case prod.case append_assoc)
  then have c: "check_access cl ms = Inr (join [CHR 0x0A] lines)"
    by (simp add: check_access_def)
  have ok: "probe_tag cl m = ''OK'' \<longleftrightarrow>
              (\<exists>r t. cl m probe_prompt = Returns r \<and> extract_text r = Inr (Some t))" for m
    using classify_error_not_ok
    by (auto simp: probe_tag_def split: outcome.splits sum.splits option.splits)
  have raises: "probe_tag cl m = classify_error e" if "cl m probe_prompt = Raises e" for m e
    using that by (simp add: probe_tag_def)
  from r(1) r(3) l c lines_def ok raises show ?thesis by blast
qed

theorem check_access_verdict_witness:
  "(\<exists>lines. check_access_lines client1 [''model-a'', ''model-e'', ''model-b''] = Inr lines
       \<and> last lines = ''Result: Gemini is reachable. At least one configured model works.'')
   \<and> (\<exists>lines. check_access_lines client1 [''model-a'', ''model-g'', ''model-f'', ''model-e''] = Inr lines
       \<and> last lines = ''Blocked by authentication. Check GOOGLE_API_KEY.'')
   \<and> (\<exists>lines. check_access_lines client1 [''model-a'', ''model-g'', ''model-f''] = Inr lines
       \<and> last lines = ''Blocked by project/API permissions for this key.'')
   \<and> (\<exists>lines. check_access_lines client1 [''model-a'', ''model-g''] = Inr lines
       \<and> last lines = ''Blocked by quota/billing limits on this project.'')
   \<and> (\<exists>lines. check_access_lines client1 [''model-a'', ''model-d''] = Inr lines
       \<and> last lines = ''Blocked by model names. None of the configured models are available.'')
   \<and> (\<exists>lines. check_access_lines client1 [''model-a'', ''model-c'', ''model-h''] = Inr lines
       \<and> last lines = ''Blocked by API/network/runtime errors. See per-model details above.'')"
proof (intro conjI)
  show "\<exists>lines. check_access_lines client1 [''model-a'', ''model-e'', ''model-b''] = Inr lines
       \<and> last lines = ''Result: Gemini is reachable. At least one configured model works.''"
    using check_access_verdict [of client1 "[''model-a'', ''model-e'', ''model-b'']"]
    by (auto simp: client1_tags)
  show "\<exists>lines. check_access_lines client1 [''model-a'', ''model-g'', ''model-f'', ''model-e''] = Inr lines
       \<and> last lines = ''Blocked by authentication. Check GOOGLE_API_KEY.''"
    using check_access_verdict [of client1 "[''model-a'', ''model-g'', ''model-f'', ''model-e'']"]
    by (auto simp: client1_tags)
  show "\<exists>lines. check_access_lines client1 [''model-a'', ''model-g'', ''model-f''] = Inr lines
       \<and> last lines = ''Blocked by project/API permissions for this key.''"
    using check_access_verdict [of client1 "[''model-a'', ''model-g'', ''model-f'']"]
    by (auto simp: client1_tags)
  show "\<exists>lines. check_access_lines client1 [''model-a'', ''model-g''] = Inr lines
       \<and> last lines = ''Blocked by quota/billing limits on this project.''"
    using check_access_verdict [of client1 "[''model-a'', ''model-g'']"]
    by (auto simp: client1_tags)
  show "\<exists>lines. check_access_lines client1 [''model-a'', ''model-d''] = Inr lines
       \<and> last lines = ''Blocked by model names. None of the configured models are available.''"
    using check_access_verdict [of client1 "[''model-a'', ''model-d'']"]
    by (auto simp: client1_tags)
  show "\<exists>lines. check_access_lines client1 [''model-a'', ''model-c'', ''model-h''] = Inr lines
       \<and> last lines = ''Blocked by API/network/runtime errors. See per-model details above.''"
    using check_access_verdict [of client1 "[''model-a'', ''model-c'', ''model-h'']"]
    by (auto simp: client1_tags)
qed

end
